theory Spec2Isabelle
  imports Complex_Main "HOL-Library.Sublist"
begin

section \<open>Data model of server.js\<close>

text \<open>
  The service keeps three collections in a document store: users, recipes and archived
  recipes. Documents are records; an identity (ObjectId) is the number its 24 hexadecimal
  digits denote; a date is a number of milliseconds since the epoch. Strings are lists of
  characters, and the length and the letter case of a string are those of its ASCII
  characters.

  The path views is a Number. The store keeps it as a 32 or 64 bit integer or as a
  double, or as null; the program reads it as a double. A number written by the program
  is stored as an integer when it is whole and fits 32 bits, as a double otherwise. A
  double is the rational it denotes. The paths views and createdAt are present in every
  document the object mapper wrote (they have defaults), but may hold null.

  Requests are served one after the other, each store call succeeds or fails as the
  store's rules say (a cast, a validator, a unique index), and a handler is a function
  from the store to its reply and the store it leaves.
\<close>

type_synonym objectId = nat
type_synonym date = int

datatype bsonNumber = IntN int | DoubleN rat

record user =
  u_id :: objectId
  name :: string
  email :: string
  u_createdAt :: date

record recipe =
  r_id :: objectId
  title :: string
  description :: "string option"
  ingredients :: "string list"
  instructions :: string
  author :: objectId
  views :: "bsonNumber option"
  createdAt :: "date option"

text \<open>archivedRecipeSchema: the fields of recipeSchema and archivedAt.\<close>

record archivedRecipe = recipe +
  archivedAt :: date

text \<open>
  The store: the three collections in insertion order, and the generator of fresh
  identities (every \<open>new Model(...)\<close> without an \<open>_id\<close> draws one).
\<close>

record store =
  users :: "user list"
  recipes :: "recipe list"
  archive :: "archivedRecipe list"
  nextId :: objectId

definition emptyStore :: store where
  "emptyStore = \<lparr>users = [], recipes = [], archive = [], nextId = 0\<rparr>"

subsection \<open>Request bodies\<close>

text \<open>
  JSON values; a number is the rational its text denotes, before it is rounded to a
  double. An object is the list of its entries.
\<close>

datatype json =
    JNull
  | JBool bool
  | JNum rat
  | JStr string
  | JArr "json list"
  | JObj "(string \<times> json) list"

text \<open>
  The bodies of POST /add-user and POST /add-recipe are read through the keys the
  handlers destructure, each absent or present with a value of the type of its path;
  the author travels as a string and is cast to an identity. The keys views and
  createdAt of a recipe body may carry any JSON value. The body of PUT
  /update-recipe/:recipeId is handed to the object mapper whole, so it is kept as the
  entries of the parsed object.
\<close>

record user_body =
  ub_name :: "string option"
  ub_email :: "string option"

record recipe_body =
  b_title :: "string option"
  b_description :: "string option"
  b_ingredients :: "string list option"
  b_instructions :: "string option"
  b_author :: "string option"
  b_views :: "json option"
  b_createdAt :: "json option"

type_synonym update_body = "(string \<times> json) list"

subsection \<open>Errors and responses\<close>

datatype error = CastError | ValidationError | DuplicateKey | RequiredFields | StoreError

record author_summary =
  as_id :: objectId
  as_name :: string
  as_email :: string

text \<open>avgRecipesPerUser is the number 0 or the string made by toFixed(2).\<close>

datatype average = AvgNumber nat | AvgString string

datatype extremal = NoRecipesYet | Extremal recipe

record analytics =
  totalUsers :: nat
  totalRecipes :: nat
  avgRecipesPerUser :: average
  mostViewedRecipe :: extremal
  leastViewedRecipe :: extremal

text \<open>
  One constructor for each reply of the routes, with the message where the source sends
  one. NotFoundMessage is \<open>{ message }\<close> and NotFoundError is \<open>{ error }\<close>,
  both with status 404; BadRequest is the catch branch. A number in a reply is the
  double the program holds. Unmodelled stands for a request this development does not
  describe, and then neither the reply nor the store beside it is a statement about the
  program: a title filter that uses regular-expression operators other than the dot, an
  average formed from counts that are not exact doubles, an update whose body is not a
  plain object of fields with values of the types of their paths, and arithmetic on a
  stored integer beyond \<open>2^53\<close> or with a result beyond the largest double.
\<close>

datatype response =
    UserCreated string user
  | RecipeAdded string recipe
  | RecipeUpdated string recipe
  | RecipeDeleted string
  | RecipeList "(recipe \<times> author_summary option) list"
  | RecipeDoc recipe "user option"
  | UserRecipes "recipe list"
  | TotalViews rat
  | MostViewed recipe
  | ViewIncremented string rat
  | AnalyticsReport analytics
  | NotFoundMessage string
  | NotFoundError string
  | BadRequest error
  | Unmodelled

fun status :: "response \<Rightarrow> nat option" where
  "status (UserCreated _ _) = Some 201"
| "status (RecipeAdded _ _) = Some 201"
| "status (NotFoundMessage _) = Some 404"
| "status (NotFoundError _) = Some 404"
| "status (BadRequest _) = Some 400"
| "status Unmodelled = None"
| "status _ = Some 200"

section \<open>The object mapper and the store\<close>

subsection \<open>Casting a string to an identity\<close>

definition hex_val :: "char \<Rightarrow> nat option" where
  "hex_val c =
     (let n = (of_char c :: nat) in
      if 48 \<le> n \<and> n \<le> 57 then Some (n - 48)
      else if 97 \<le> n \<and> n \<le> 102 then Some (n - 87)
      else if 65 \<le> n \<and> n \<le> 70 then Some (n - 55)
      else None)"

fun hex_num :: "nat \<Rightarrow> string \<Rightarrow> nat option" where
  "hex_num acc [] = Some acc"
| "hex_num acc (c # cs) =
     (case hex_val c of None \<Rightarrow> None | Some d \<Rightarrow> hex_num (16 * acc + d) cs)"

text \<open>
  A route parameter or body value is accepted as an identity when it is a string of 24
  hexadecimal digits; any other string makes the query or the document fail with a
  cast error.
\<close>

definition castObjectId :: "string \<Rightarrow> objectId option" where
  "castObjectId s = (if length s = 24 then hex_num 0 s else None)"

subsection \<open>Queries on the Recipe collection\<close>

definition findById :: "objectId \<Rightarrow> ('a recipe_scheme) list \<Rightarrow> 'a recipe_scheme option" where
  "findById i rs = find (\<lambda>r. r_id r = i) rs"

text \<open>Replace the first document with the given identity.\<close>

fun replaceById :: "objectId \<Rightarrow> recipe \<Rightarrow> recipe list \<Rightarrow> recipe list" where
  "replaceById i r' [] = []"
| "replaceById i r' (r # rs) = (if r_id r = i then r' # rs else r # replaceById i r' rs)"

text \<open>Remove the first document with the given identity.\<close>

fun removeById :: "objectId \<Rightarrow> recipe list \<Rightarrow> recipe list" where
  "removeById i [] = []"
| "removeById i (r # rs) = (if r_id r = i then rs else r # removeById i rs)"

text \<open>Inserting a document whose identity is already in the collection is refused.\<close>

definition insertRecipe :: "recipe \<Rightarrow> store \<Rightarrow> error + store" where
  "insertRecipe r st =
     (if r_id r \<in> set (map r_id (recipes st)) then Inl DuplicateKey
      else Inr (st\<lparr>recipes := recipes st @ [r]\<rparr>))"

definition insertArchived :: "archivedRecipe \<Rightarrow> store \<Rightarrow> error + store" where
  "insertArchived a st =
     (if r_id a \<in> set (map r_id (archive st)) then Inl DuplicateKey
      else Inr (st\<lparr>archive := archive st @ [a]\<rparr>))"

subsection \<open>Schema validators\<close>

text \<open>
  recipeSchema and archivedRecipeSchema: title is required with minlength 3,
  instructions is required (a required string is not empty), author is required;
  ingredients is an array path, which defaults to the empty array and so always
  passes its required check; description has no validator.
\<close>

definition titleOk :: "string \<Rightarrow> bool" where
  "titleOk t = (t \<noteq> [] \<and> 3 \<le> length t)"

definition instructionsOk :: "string \<Rightarrow> bool" where
  "instructionsOk s = (s \<noteq> [])"

definition validDoc :: "'a recipe_scheme \<Rightarrow> bool" where
  "validDoc r = (titleOk (title r) \<and> instructionsOk (instructions r))"

subsection \<open>Regular expressions\<close>

text \<open>
  The two regular expressions of the source are the email validator \<open>/.+\@.+\..+/\<close>
  and the title filter, which the client supplies and the store runs with option \<open>i\<close>.
  Both are searched anywhere in the subject. A pattern is a sequence of items: one
  character, or one or more characters (\<open>x+\<close>); a character is a literal or the dot,
  which matches everything but the line terminators of its engine.
\<close>

datatype atom = Lit char | AnyExcept "char list"

datatype item = One atom | Plus atom

definition lower :: "char \<Rightarrow> char" where
  "lower c = (let n = (of_char c :: nat) in if 65 \<le> n \<and> n \<le> 90 then char_of (n + 32) else c)"

fun atomMatches :: "bool \<Rightarrow> atom \<Rightarrow> char \<Rightarrow> bool" where
  "atomMatches ci (Lit a) c = (if ci then lower a = lower c else a = c)"
| "atomMatches ci (AnyExcept xs) c = (c \<notin> set xs)"

fun matchHere :: "bool \<Rightarrow> item list \<Rightarrow> string \<Rightarrow> bool" where
  "matchHere ci [] s = True"
| "matchHere ci (One a # is) [] = False"
| "matchHere ci (One a # is) (c # cs) = (atomMatches ci a c \<and> matchHere ci is cs)"
| "matchHere ci (Plus a # is) [] = False"
| "matchHere ci (Plus a # is) (c # cs) =
     (atomMatches ci a c \<and> (matchHere ci is cs \<or> matchHere ci (Plus a # is) cs))"

fun regexTest :: "bool \<Rightarrow> item list \<Rightarrow> string \<Rightarrow> bool" where
  "regexTest ci p [] = matchHere ci p []"
| "regexTest ci p (c # cs) = (matchHere ci p (c # cs) \<or> regexTest ci p cs)"

definition LF :: char where "LF = CHR 0x0A"
definition CR :: char where "CR = CHR 0x0D"

definition emailPattern :: "item list" where
  "emailPattern =
     [Plus (AnyExcept [LF, CR]), One (Lit (CHR ''@'')), Plus (AnyExcept [LF, CR]),
      One (Lit (CHR ''.'')), Plus (AnyExcept [LF, CR])]"

text \<open>
  The characters with a meaning in a pattern:
  \<open>\ ^ $ . | ? * + ( ) [ ] { }\<close>.
\<close>

definition metachars :: "char list" where
  "metachars =
     [CHR 0x5C, CHR 0x5E, CHR 0x24, CHR 0x2E, CHR 0x7C, CHR 0x3F, CHR 0x2A, CHR 0x2B,
      CHR 0x28, CHR 0x29, CHR 0x5B, CHR 0x5D, CHR 0x7B, CHR 0x7D]"

text \<open>
  The title filter is compiled as the client wrote it. Patterns made of literal
  characters and dots are read here; a pattern with any other operator is not.
\<close>

fun parsePattern :: "string \<Rightarrow> item list option" where
  "parsePattern [] = Some []"
| "parsePattern (c # cs) =
     (if c = CHR 0x2E then map_option ((#) (One (AnyExcept [LF]))) (parsePattern cs)
      else if c \<in> set metachars then None
      else map_option ((#) (One (Lit c))) (parsePattern cs))"

subsection \<open>Numbers\<close>

text \<open>
  \<open>totalRecipes / totalUsers\<close> is a division of two doubles. For integers below
  \<open>2^53\<close> the operands are exact and the quotient is the exact quotient rounded to 53
  significant bits, ties to even; a zero divisor gives Infinity or NaN.
\<close>

datatype jsnumber = Num rat | PosInf | NaN

fun bitLength :: "nat \<Rightarrow> nat" where
  "bitLength n = (if n = 0 then 0 else Suc (bitLength (n div 2)))"

declare bitLength.simps [simp del]

definition pow2 :: "int \<Rightarrow> rat" where
  "pow2 e = (if 0 \<le> e then 2 ^ nat e else 1 / 2 ^ nat (- e))"

definition roundHalfEven :: "nat \<Rightarrow> nat \<Rightarrow> nat" where
  "roundHalfEven n d =
     (let f = n div d; r = n mod d
      in if 2 * r < d then f else if d < 2 * r then f + 1 else if even f then f else f + 1)"

definition jsDivide :: "nat \<Rightarrow> nat \<Rightarrow> jsnumber" where
  "jsDivide a b =
     (if b = 0 then (if a = 0 then NaN else PosInf)
      else if a = 0 then Num 0
      else
        let d = int (bitLength a) - int (bitLength b);
            e = (if of_nat a < (of_nat b :: rat) * pow2 d then d - 1 else d);
            m = (if e \<le> 52 then roundHalfEven (a * 2 ^ nat (52 - e)) b
                 else roundHalfEven a (b * 2 ^ nat (e - 52)))
        in Num (of_nat m * pow2 (e - 52)))"

text \<open>
  \<open>Number.prototype.toFixed(2)\<close>: the integer \<open>n\<close> with \<open>n / 100\<close> nearest to the
  number (the larger one on a tie), written in decimal with at least one digit before
  the point and two after it. Numbers of magnitude \<open>10^21\<close> and more are written in
  exponent form, which is not described here.
\<close>

definition digitChar :: "nat \<Rightarrow> char" where
  "digitChar d = char_of (48 + d)"

fun digits :: "nat \<Rightarrow> string" where
  "digits n = (if n < 10 then [digitChar n] else digits (n div 10) @ [digitChar (n mod 10)])"

declare digits.simps [simp del]

definition fixed2 :: "nat \<Rightarrow> string" where
  "fixed2 n =
     (let m = digits n;
          m' = replicate (3 - length m) (CHR ''0'') @ m;
          k = length m'
      in take (k - 2) m' @ ''.'' @ drop (k - 2) m')"

fun toFixed2 :: "jsnumber \<Rightarrow> string option" where
  "toFixed2 NaN = Some ''NaN''"
| "toFixed2 PosInf = Some ''Infinity''"
| "toFixed2 (Num x) =
     (if 10 ^ 21 \<le> \<bar>x\<bar> then None
      else Some ((if x < 0 then ''-'' else []) @ fixed2 (nat \<lfloor>\<bar>x\<bar> * 100 + 1 / 2\<rfloor>)))"

subsection \<open>Arithmetic on views\<close>

text \<open>
  Rounding a rational to the nearest double, ties to even: 53 significant bits down to
  the exponent \<open>-1022\<close>, steps of \<open>2^-1074\<close> below it. A result of \<open>2^1024\<close>
  or more is Infinity, which is not described (None). roundPos rounds the quotient of
  two positive numbers, toDouble a rational through its numerator and denominator.
\<close>

definition overflowLimit :: rat where
  "overflowLimit = 2 ^ 1024"

definition doubleExponent :: "nat \<Rightarrow> nat \<Rightarrow> int" where
  "doubleExponent a b =
     (let d = int (bitLength a) - int (bitLength b);
          e = (if of_nat a < (of_nat b :: rat) * pow2 d then d - 1 else d)
      in max e (- 1022))"

definition roundPos :: "nat \<Rightarrow> nat \<Rightarrow> rat option" where
  "roundPos a b =
     (let E = doubleExponent a b;
          m = (if E \<le> 52 then roundHalfEven (a * 2 ^ nat (52 - E)) b
               else roundHalfEven a (b * 2 ^ nat (E - 52)));
          y = of_nat m * pow2 (E - 52)
      in if overflowLimit \<le> y then None else Some y)"

definition toDouble :: "rat \<Rightarrow> rat option" where
  "toDouble x =
     (if x = 0 then Some 0
      else map_option (\<lambda>y. if x < 0 then - y else y)
             (roundPos (nat (fst (quotient_of \<bar>x\<bar>))) (nat (snd (quotient_of \<bar>x\<bar>)))))"

text \<open>The number a stored value denotes, and whether the program reads it exactly.\<close>

definition numValue :: "bsonNumber \<Rightarrow> rat" where
  "numValue v = (case v of IntN i \<Rightarrow> of_int i | DoubleN x \<Rightarrow> x)"

definition readable :: "bsonNumber \<Rightarrow> bool" where
  "readable v = (case v of IntN i \<Rightarrow> \<bar>i\<bar> \<le> 2 ^ 53 | DoubleN x \<Rightarrow> toDouble x = Some x)"

text \<open>
  Writing a double: the driver stores a whole number that fits 32 bits as an integer and
  every other number as a double.
\<close>

definition toBson :: "rat \<Rightarrow> bsonNumber" where
  "toBson x =
     (if of_int \<lfloor>x\<rfloor> = x \<and> - (2 ^ 31) \<le> x \<and> x < 2 ^ 31 then IntN \<lfloor>x\<rfloor> else DoubleN x)"

text \<open>
  \<open>{ $inc: { views: 1 } }\<close> inside the store: an integer stays an integer (widened from
  32 to 64 bits when needed), a double takes the rounded sum.
\<close>

definition incNumber :: "bsonNumber \<Rightarrow> bsonNumber option" where
  "incNumber v =
     (case v of
        IntN i \<Rightarrow> if - (2 ^ 53) \<le> i \<and> i + 1 \<le> 2 ^ 53 then Some (IntN (i + 1)) else None
      | DoubleN x \<Rightarrow>
          if toDouble x = Some x then map_option DoubleN (toDouble (x + 1)) else None)"

section \<open>Route handlers\<close>

subsection \<open>POST /add-recipe\<close>

text \<open>
  \<open>new Recipe({ title, description, ingredients, instructions, author })\<close>: only these
  five keys of the body reach the document; views and createdAt take their defaults
  (0 and the current time), the identity is fresh.
\<close>

definition newRecipe :: "date \<Rightarrow> objectId \<Rightarrow> recipe_body \<Rightarrow> error + recipe" where
  "newRecipe now i b =
     (case b_title b of None \<Rightarrow> Inl ValidationError | Some t \<Rightarrow>
      case b_instructions b of None \<Rightarrow> Inl ValidationError | Some ins \<Rightarrow>
      case b_author b of None \<Rightarrow> Inl ValidationError | Some a \<Rightarrow>
      case castObjectId a of None \<Rightarrow> Inl ValidationError | Some au \<Rightarrow>
        (let r = \<lparr>r_id = i, title = t, description = b_description b,
                  ingredients = (case b_ingredients b of None \<Rightarrow> [] | Some xs \<Rightarrow> xs),
                  instructions = ins, author = au, views = Some (IntN 0),
                  createdAt = Some now\<rparr>
         in if validDoc r then Inr r else Inl ValidationError))"

definition createRecipe :: "date \<Rightarrow> recipe_body \<Rightarrow> store \<Rightarrow> response \<times> store" where
  "createRecipe now b st =
     (let st0 = st\<lparr>nextId := Suc (nextId st)\<rparr> in
      case newRecipe now (nextId st) b of
        Inl e \<Rightarrow> (BadRequest e, st0)
      | Inr r \<Rightarrow>
          (case insertRecipe r st0 of
             Inl e \<Rightarrow> (BadRequest e, st0)
           | Inr st1 \<Rightarrow> (RecipeAdded ''Recipe added successfully!'' r, st1)))"

subsection \<open>POST /add-user\<close>

definition falsy :: "string option \<Rightarrow> bool" where
  "falsy v = (case v of None \<Rightarrow> True | Some s \<Rightarrow> s = [])"

definition createUser :: "date \<Rightarrow> user_body \<Rightarrow> store \<Rightarrow> response \<times> store" where
  "createUser now b st =
     (if falsy (ub_name b) \<or> falsy (ub_email b) then (BadRequest RequiredFields, st)
      else
        let u = \<lparr>u_id = nextId st, name = the (ub_name b), email = the (ub_email b),
                 u_createdAt = now\<rparr>;
            st0 = st\<lparr>nextId := Suc (nextId st)\<rparr>
        in if \<not> 3 \<le> length (name u) \<or> \<not> regexTest False emailPattern (email u)
           then (BadRequest ValidationError, st0)
           else if email u \<in> set (map email (users st)) \<or> u_id u \<in> set (map u_id (users st))
           then (BadRequest DuplicateKey, st0)
           else (UserCreated ''User successfully created!'' u, st0\<lparr>users := users st @ [u]\<rparr>))"

subsection \<open>PUT /update-recipe/:recipeId\<close>

text \<open>
  \<open>findByIdAndUpdate(recipeId, updateData, { new: true, runValidators: true })\<close> with
  \<open>req.body\<close> as the update. Described are the bodies whose keys are paths of the
  schema other than the identity, each with a value of the type of its path: a string
  for title, instructions and author, a string or null for description, an array of
  strings for ingredients, a number or null for views and createdAt. A body with an
  update operator, a dotted or unknown key or a value of another type is not described.
\<close>

definition isStr :: "json \<Rightarrow> bool" where
  "isStr v = (case v of JStr _ \<Rightarrow> True | _ \<Rightarrow> False)"

fun strOf :: "json \<Rightarrow> string" where
  "strOf (JStr s) = s"
| "strOf _ = []"

definition describedValue :: "string \<Rightarrow> json \<Rightarrow> bool" where
  "describedValue k v =
     (if k = ''title'' \<or> k = ''instructions'' \<or> k = ''author'' then isStr v
      else if k = ''description'' then isStr v \<or> v = JNull
      else if k = ''ingredients'' then (case v of JArr xs \<Rightarrow> list_all isStr xs | _ \<Rightarrow> False)
      else if k = ''views'' then (case v of JNum q \<Rightarrow> toDouble q \<noteq> None | JNull \<Rightarrow> True | _ \<Rightarrow> False)
      else if k = ''createdAt'' then (case v of JNum _ \<Rightarrow> True | JNull \<Rightarrow> True | _ \<Rightarrow> False)
      else False)"

definition describedBody :: "update_body \<Rightarrow> bool" where
  "describedBody b = (distinct (map fst b) \<and> list_all (\<lambda>(k, v). describedValue k v) b)"

text \<open>
  The casts that can fail: the author to an identity, and createdAt to a date, which
  takes a number of milliseconds of magnitude at most 8.64e15 and drops its fraction.
\<close>

definition castDate :: "rat \<Rightarrow> date option" where
  "castDate q =
     (case toDouble q of
        None \<Rightarrow> None
      | Some x \<Rightarrow>
          if 8640000000000000 < \<bar>x\<bar> then None
          else Some (if 0 \<le> x then \<lfloor>x\<rfloor> else \<lceil>x\<rceil>))"

definition castFails :: "update_body \<Rightarrow> bool" where
  "castFails b =
     ((case map_of b ''author'' of Some (JStr s) \<Rightarrow> castObjectId s = None | _ \<Rightarrow> False) \<or>
      (case map_of b ''createdAt'' of Some (JNum q) \<Rightarrow> castDate q = None | _ \<Rightarrow> False))"

text \<open>The validators of the paths being set run on the update itself.\<close>

definition updateValid :: "update_body \<Rightarrow> bool" where
  "updateValid b =
     ((case map_of b ''title'' of Some (JStr t) \<Rightarrow> titleOk t | _ \<Rightarrow> True) \<and>
      (case map_of b ''instructions'' of Some (JStr s) \<Rightarrow> instructionsOk s | _ \<Rightarrow> True))"

definition applyUpdate :: "update_body \<Rightarrow> recipe \<Rightarrow> recipe" where
  "applyUpdate b r =
     r\<lparr>title := (case map_of b ''title'' of Some (JStr t) \<Rightarrow> t | _ \<Rightarrow> title r),
       description :=
         (case map_of b ''description'' of
            Some (JStr d) \<Rightarrow> Some d | Some JNull \<Rightarrow> None | _ \<Rightarrow> description r),
       ingredients :=
         (case map_of b ''ingredients'' of Some (JArr xs) \<Rightarrow> map strOf xs | _ \<Rightarrow> ingredients r),
       instructions := (case map_of b ''instructions'' of Some (JStr s) \<Rightarrow> s | _ \<Rightarrow> instructions r),
       author :=
         (case map_of b ''author'' of
            Some (JStr s) \<Rightarrow> (case castObjectId s of Some a \<Rightarrow> a | None \<Rightarrow> author r)
          | _ \<Rightarrow> author r),
       views :=
         (case map_of b ''views'' of
            Some (JNum q) \<Rightarrow> (case toDouble q of Some x \<Rightarrow> Some (toBson x) | None \<Rightarrow> views r)
          | Some JNull \<Rightarrow> None
          | _ \<Rightarrow> views r),
       createdAt :=
         (case map_of b ''createdAt'' of
            Some (JNum q) \<Rightarrow> (case castDate q of Some d \<Rightarrow> Some d | None \<Rightarrow> createdAt r)
          | Some JNull \<Rightarrow> None
          | _ \<Rightarrow> createdAt r)\<rparr>"

text \<open>
  The identity and the update are cast, the validators run, and only then is the
  document looked up and overwritten.
\<close>

definition updateRecipe :: "string \<Rightarrow> update_body \<Rightarrow> store \<Rightarrow> response \<times> store" where
  "updateRecipe rid b st =
     (case castObjectId rid of
        None \<Rightarrow> (BadRequest CastError, st)
      | Some i \<Rightarrow>
          if \<not> describedBody b then (Unmodelled, st)
          else if castFails b then (BadRequest CastError, st)
          else if \<not> updateValid b then (BadRequest ValidationError, st)
          else
            (case findById i (recipes st) of
               None \<Rightarrow> (NotFoundMessage ''Recipe not found'', st)
             | Some r \<Rightarrow>
                 (let r' = applyUpdate b r
                  in (RecipeUpdated ''Recipe updated successfully!'' r',
                      st\<lparr>recipes := replaceById i r' (recipes st)\<rparr>))))"

subsection \<open>DELETE /delete-recipe/:recipeId\<close>

text \<open>
  archiveRecipe: \<open>new ArchivedRecipe({ ...recipe.toObject(), archivedAt: new Date() })\<close>
  keeps every field of the recipe, its identity included; saving it runs the validators
  of archivedRecipeSchema and inserts.
\<close>

definition archivedCopy :: "date \<Rightarrow> recipe \<Rightarrow> archivedRecipe" where
  "archivedCopy now r =
     \<lparr>r_id = r_id r, title = title r, description = description r,
      ingredients = ingredients r, instructions = instructions r, author = author r,
      views = views r, createdAt = createdAt r, archivedAt = now\<rparr>"

definition archiveRecipe :: "date \<Rightarrow> string \<Rightarrow> store \<Rightarrow> error + store" where
  "archiveRecipe now rid st =
     (case castObjectId rid of
        None \<Rightarrow> Inl CastError
      | Some i \<Rightarrow>
          (case findById i (recipes st) of
             None \<Rightarrow> Inr st
           | Some r \<Rightarrow>
               (let a = archivedCopy now r
                in if validDoc a then insertArchived a st else Inl ValidationError)))"

definition deleteRecipe :: "date \<Rightarrow> string \<Rightarrow> store \<Rightarrow> response \<times> store" where
  "deleteRecipe now rid st =
     (case archiveRecipe now rid st of
        Inl e \<Rightarrow> (BadRequest e, st)
      | Inr st1 \<Rightarrow>
          (case castObjectId rid of
             None \<Rightarrow> (BadRequest CastError, st1)
           | Some i \<Rightarrow>
               (case findById i (recipes st1) of
                  None \<Rightarrow> (NotFoundMessage ''Recipe not found'', st1)
                | Some r \<Rightarrow>
                    (RecipeDeleted ''Recipe archived and deleted successfully.'',
                     st1\<lparr>recipes := removeById i (recipes st1)\<rparr>))))"

subsection \<open>GET /recipes\<close>

definition findUser :: "objectId \<Rightarrow> user list \<Rightarrow> user option" where
  "findUser i us = find (\<lambda>u. u_id u = i) us"

text \<open>\<open>populate('author', 'name email')\<close>: the referenced user's name and email, or null.\<close>

definition populateSummary :: "user list \<Rightarrow> recipe \<Rightarrow> recipe \<times> author_summary option" where
  "populateSummary us r =
     (r, map_option (\<lambda>u. \<lparr>as_id = u_id u, as_name = name u, as_email = email u\<rparr>)
           (findUser (author r) us))"

definition listRecipes :: "string option \<Rightarrow> store \<Rightarrow> response \<times> store" where
  "listRecipes q st =
     (if falsy q then (RecipeList (map (populateSummary (users st)) (recipes st)), st)
      else
        (case parsePattern (the q) of
           None \<Rightarrow> (Unmodelled, st)
         | Some p \<Rightarrow>
             (RecipeList (map (populateSummary (users st))
                (filter (\<lambda>r. regexTest True p (title r)) (recipes st))), st)))"

subsection \<open>GET /recipe/:recipeId and GET /recipes/view/:recipeId\<close>

text \<open>
  \<open>findByIdAndUpdate(recipeId, { $inc: { views: 1 } }, { new: true })\<close>: no document,
  the store's refusal to increment null, or the document after the increment.
\<close>

datatype 'a lookup = Found 'a | Missing | Rejected error | Undescribed

definition incViews :: "objectId \<Rightarrow> store \<Rightarrow> (recipe \<times> store) lookup" where
  "incViews i st =
     (case findById i (recipes st) of
        None \<Rightarrow> Missing
      | Some r \<Rightarrow>
          (case views r of
             None \<Rightarrow> Rejected StoreError
           | Some v \<Rightarrow>
               (case incNumber v of
                  None \<Rightarrow> Undescribed
                | Some v' \<Rightarrow>
                    (let r' = r\<lparr>views := Some v'\<rparr>
                     in Found (r', st\<lparr>recipes := replaceById i r' (recipes st)\<rparr>)))))"

definition getRecipe :: "string \<Rightarrow> store \<Rightarrow> response \<times> store" where
  "getRecipe rid st =
     (case castObjectId rid of
        None \<Rightarrow> (BadRequest CastError, st)
      | Some i \<Rightarrow>
          (case incViews i st of
             Missing \<Rightarrow> (NotFoundMessage ''Recipe not found'', st)
           | Rejected e \<Rightarrow> (BadRequest e, st)
           | Undescribed \<Rightarrow> (Unmodelled, st)
           | Found (r', st') \<Rightarrow> (RecipeDoc r' (findUser (author r') (users st')), st')))"

text \<open>\<open>views: recipe.views\<close> is the number the program reads from the document.\<close>

definition viewsRead :: "recipe \<Rightarrow> rat option" where
  "viewsRead r = map_option numValue (views r)"

definition incrementView :: "string \<Rightarrow> store \<Rightarrow> response \<times> store" where
  "incrementView rid st =
     (case castObjectId rid of
        None \<Rightarrow> (BadRequest CastError, st)
      | Some i \<Rightarrow>
          (case incViews i st of
             Missing \<Rightarrow> (NotFoundError ''Recipe not found'', st)
           | Rejected e \<Rightarrow> (BadRequest e, st)
           | Undescribed \<Rightarrow> (Unmodelled, st)
           | Found (r', st') \<Rightarrow>
               (case viewsRead r' of
                  None \<Rightarrow> (Unmodelled, st)
                | Some n \<Rightarrow> (ViewIncremented ''View incremented'' n, st'))))"

subsection \<open>The routes of one user\<close>

definition recipesOf :: "objectId \<Rightarrow> store \<Rightarrow> recipe list" where
  "recipesOf u st = filter (\<lambda>r. author r = u) (recipes st)"

definition listRecipesByUser :: "string \<Rightarrow> store \<Rightarrow> response \<times> store" where
  "listRecipesByUser uid st =
     (case castObjectId uid of
        None \<Rightarrow> (BadRequest CastError, st)
      | Some u \<Rightarrow> (UserRecipes (recipesOf u st), st))"

text \<open>
  \<open>recipes.reduce((acc, recipe) => acc + recipe.views, 0)\<close>: an addition of doubles,
  in which null counts as 0. A stored integer the program cannot read exactly, and a sum
  beyond the largest double, are not described (None).
\<close>

definition addend :: "recipe \<Rightarrow> rat option" where
  "addend r =
     (case views r of
        None \<Rightarrow> Some 0
      | Some v \<Rightarrow> if readable v then Some (numValue v) else None)"

fun reduceViews :: "rat \<Rightarrow> recipe list \<Rightarrow> rat option" where
  "reduceViews acc [] = Some acc"
| "reduceViews acc (r # rs) =
     (case addend r of
        None \<Rightarrow> None
      | Some v \<Rightarrow>
          (case toDouble (acc + v) of
             None \<Rightarrow> None
           | Some acc' \<Rightarrow> reduceViews acc' rs))"

definition totalViewsByUser :: "string \<Rightarrow> store \<Rightarrow> response \<times> store" where
  "totalViewsByUser uid st =
     (case castObjectId uid of
        None \<Rightarrow> (BadRequest CastError, st)
      | Some u \<Rightarrow>
          (case reduceViews 0 (recipesOf u st) of
             None \<Rightarrow> (Unmodelled, st)
           | Some t \<Rightarrow> (TotalViews t, st)))"

text \<open>
  \<open>findOne(...).sort({ views: -1 })\<close>: the first document in descending order of views,
  and in ascending order for \<open>{ views: 1 }\<close>. The store orders null below every number
  and numbers by their value; among equal views the earlier document is taken.
\<close>

fun viewsLess :: "bsonNumber option \<Rightarrow> bsonNumber option \<Rightarrow> bool" where
  "viewsLess None None = False"
| "viewsLess None (Some w) = True"
| "viewsLess (Some v) None = False"
| "viewsLess (Some v) (Some w) = (numValue v < numValue w)"

fun firstByViewsDesc :: "recipe list \<Rightarrow> recipe option" where
  "firstByViewsDesc [] = None"
| "firstByViewsDesc (r # rs) =
     (case firstByViewsDesc rs of
        None \<Rightarrow> Some r
      | Some m \<Rightarrow> if viewsLess (views r) (views m) then Some m else Some r)"

fun firstByViewsAsc :: "recipe list \<Rightarrow> recipe option" where
  "firstByViewsAsc [] = None"
| "firstByViewsAsc (r # rs) =
     (case firstByViewsAsc rs of
        None \<Rightarrow> Some r
      | Some m \<Rightarrow> if viewsLess (views m) (views r) then Some m else Some r)"

definition mostViewedByUser :: "string \<Rightarrow> store \<Rightarrow> response \<times> store" where
  "mostViewedByUser uid st =
     (case castObjectId uid of
        None \<Rightarrow> (BadRequest CastError, st)
      | Some u \<Rightarrow>
          (case firstByViewsDesc (recipesOf u st) of
             None \<Rightarrow> (NotFoundMessage ''No recipes found'', st)
           | Some r \<Rightarrow> (MostViewed r, st)))"

subsection \<open>GET /analytics\<close>

text \<open>
  \<open>totalUsers ? (totalRecipes / totalUsers).toFixed(2) : 0\<close>. The counts are doubles; the
  reply is described for counts below \<open>2^53\<close>.
\<close>

definition orNoRecipes :: "recipe option \<Rightarrow> extremal" where
  "orNoRecipes v = (case v of None \<Rightarrow> NoRecipesYet | Some r \<Rightarrow> Extremal r)"

definition getAnalytics :: "store \<Rightarrow> response \<times> store" where
  "getAnalytics st =
     (let tu = length (users st); tr = length (recipes st)
      in if 2 ^ 53 \<le> tu \<or> 2 ^ 53 \<le> tr then (Unmodelled, st)
         else
           (case (if tu \<noteq> 0 then map_option AvgString (toFixed2 (jsDivide tr tu))
                  else Some (AvgNumber 0)) of
              None \<Rightarrow> (Unmodelled, st)
            | Some avg \<Rightarrow>
                (AnalyticsReport
                   \<lparr>totalUsers = tu, totalRecipes = tr, avgRecipesPerUser = avg,
                    mostViewedRecipe = orNoRecipes (firstByViewsDesc (recipes st)),
                    leastViewedRecipe = orNoRecipes (firstByViewsAsc (recipes st))\<rparr>, st)))"

subsection \<open>Sequential calls\<close>

text \<open>The store after \<open>n\<close> calls of GET /recipe/:recipeId, one after the other.\<close>

fun getRecipeTimes :: "nat \<Rightarrow> string \<Rightarrow> store \<Rightarrow> store" where
  "getRecipeTimes 0 rid st = st"
| "getRecipeTimes (Suc n) rid st = getRecipeTimes n rid (snd (getRecipe rid st))"

subsection \<open>The title filter of the specification\<close>

text \<open>
  The specification's reading of the filter: the title contains the filter as a
  substring, letter case aside.
\<close>

definition containsIgnoringCase :: "string \<Rightarrow> string \<Rightarrow> bool" where
  "containsIgnoringCase f t = sublist (map lower f) (map lower t)"

subsection \<open>Example data\<close>

definition zeroId :: string where
  "zeroId = ''000000000000000000000000''"

definition oneId :: string where
  "oneId = ''000000000000000000000001''"

definition tenId :: string where
  "tenId = ''00000000000000000000000a''"

definition elevenId :: string where
  "elevenId = ''00000000000000000000000b''"

definition breadBody :: recipe_body where
  "breadBody =
     \<lparr>b_title = Some ''Bread'', b_description = None, b_ingredients = None,
      b_instructions = Some ''bake'', b_author = Some zeroId,
      b_views = Some (JNum 99), b_createdAt = Some (JNum 5)\<rparr>"

definition bread :: recipe where
  "bread =
     \<lparr>r_id = 0, title = ''Bread'', description = None, ingredients = [],
      instructions = ''bake'', author = 0, views = Some (IntN 0), createdAt = Some 2\<rparr>"

definition breadStore :: store where
  "breadStore = \<lparr>users = [], recipes = [bread], archive = [], nextId = 1\<rparr>"

definition ann :: user where
  "ann = \<lparr>u_id = 10, name = ''Ann'', email = ''ann@example.org'', u_createdAt = 1\<rparr>"

definition sample :: "objectId \<Rightarrow> objectId \<Rightarrow> bsonNumber option \<Rightarrow> recipe" where
  "sample i a v = bread\<lparr>r_id := i, author := a, views := v\<rparr>"

definition annBody :: recipe_body where
  "annBody = breadBody\<lparr>b_title := Some ''Scones'', b_author := Some tenId\<rparr>"

definition scones :: recipe where
  "scones = bread\<lparr>r_id := 11, title := ''Scones'', author := 10\<rparr>"

text \<open>Ann's recipe and a recipe whose author is no user.\<close>

definition annStore :: store where
  "annStore =
     \<lparr>users = [ann], recipes = [sample 0 10 (Some (IntN 41)), sample 1 7 (Some (IntN 0))],
      archive = [], nextId = 11\<rparr>"

definition viewsStore :: store where
  "viewsStore =
     \<lparr>users = [],
      recipes = [sample 0 0 (Some (IntN 3)), sample 1 1 (Some (IntN 7)),
                 sample 2 0 (Some (IntN 5)), sample 3 0 (Some (IntN 0))],
      archive = [], nextId = 4\<rparr>"

text \<open>
  A recipe whose views were set to \<open>2^53\<close> by an update (the number does not fit 32
  bits and is stored as a double), and one more recipe of the same author.
\<close>

definition bigViews :: store where
  "bigViews =
     \<lparr>users = [],
      recipes = [sample 0 0 (Some (DoubleN 9007199254740992)), sample 1 0 (Some (IntN 1))],
      archive = [], nextId = 2\<rparr>"


text \<open>
  An update of the title and of views, with a number that is no double, and an update
  of createdAt beyond the range of dates.
\<close>

definition ryeBody :: update_body where
  "ryeBody = [(''title'', JStr ''Rye bread''), (''views'', JNum 9007199254740993)]"

definition lateBody :: update_body where
  "lateBody = [(''createdAt'', JNum 8640000000000001)]"

definition titled :: "objectId \<Rightarrow> objectId \<Rightarrow> string \<Rightarrow> recipe" where
  "titled i a t = bread\<lparr>r_id := i, author := a, title := t\<rparr>"

definition cakeStore :: store where
  "cakeStore =
     \<lparr>users = [ann],
      recipes = [titled 0 10 ''Chocolate Cake'', titled 1 10 ''Bread'', titled 2 7 ''Carrot Cake''],
      archive = [], nextId = 11\<rparr>"

definition threeUsers :: store where
  "threeUsers =
     \<lparr>users = [ann, ann\<lparr>u_id := 11, email := ''bob@example.org''\<rparr>,
               ann\<lparr>u_id := 12, email := ''cy@example.org''\<rparr>],
      recipes = [sample 0 10 (Some (IntN 4)), sample 1 11 (Some (IntN 9))],
      archive = [], nextId = 13\<rparr>"

section \<open>Properties\<close>

subsection \<open>Evaluating the examples\<close>

lemma castObjectId_zeroId: "castObjectId zeroId = Some 0"
  by (simp add: zeroId_def castObjectId_def hex_val_def)

lemma castObjectId_oneId: "castObjectId oneId = Some 1"
  by (simp add: oneId_def castObjectId_def hex_val_def)

lemma castObjectId_tenId: "castObjectId tenId = Some 10"
  by (simp add: tenId_def castObjectId_def hex_val_def)

lemma castObjectId_elevenId: "castObjectId elevenId = Some 11"
  by (simp add: elevenId_def castObjectId_def hex_val_def)

lemma validDoc_bread: "validDoc bread"
  by (simp add: bread_def validDoc_def titleOk_def instructionsOk_def)

lemma createRecipe_breadBody:
  "createRecipe 2 breadBody emptyStore = (RecipeAdded ''Recipe added successfully!'' bread, breadStore)"
  by (simp add: createRecipe_def newRecipe_def insertRecipe_def emptyStore_def breadBody_def
      castObjectId_zeroId validDoc_bread [unfolded bread_def] bread_def breadStore_def)

lemma createRecipe_annBody:
  "createRecipe 2 annBody annStore =
     (RecipeAdded ''Recipe added successfully!'' scones,
      annStore\<lparr>nextId := 12, recipes := recipes annStore @ [scones]\<rparr>)"
  by (simp add: createRecipe_def newRecipe_def insertRecipe_def annBody_def breadBody_def
      castObjectId_tenId validDoc_def titleOk_def instructionsOk_def scones_def bread_def
      annStore_def sample_def)

lemma findById_breadStore: "findById 0 (recipes breadStore) = Some bread"
  "findById 1 (recipes breadStore) = None"
  by (simp_all add: findById_def breadStore_def bread_def)

lemma findById_emptyStore: "findById i (recipes emptyStore) = None"
  by (simp add: findById_def emptyStore_def)

subsection \<open>Creating a recipe\<close>

lemma newRecipe_views: "newRecipe now i b = Inr r \<Longrightarrow> views r = Some (IntN 0)"
  by (auto simp: newRecipe_def Let_def split: option.splits if_splits)

lemma newRecipe_id: "newRecipe now i b = Inr r \<Longrightarrow> r_id r = i"
  by (auto simp: newRecipe_def Let_def split: option.splits if_splits)

lemma newRecipe_ignores:
  "newRecipe now i (b\<lparr>b_views := v, b_createdAt := c\<rparr>) = newRecipe now i b"
  by (simp add: newRecipe_def split: option.splits)

lemma createRecipe_added:
  assumes "createRecipe now b st = (RecipeAdded m r, st')"
  shows "newRecipe now (nextId st) b = Inr r"
    and "r_id r \<notin> set (map r_id (recipes st))"
    and "st' = st\<lparr>nextId := Suc (nextId st), recipes := recipes st @ [r]\<rparr>"
  using assms
  by (auto simp: createRecipe_def insertRecipe_def Let_def split: sum.splits if_splits)

text \<open>
  C9. Whatever the body of POST /add-recipe carries, a created recipe has views 0 and is
  in the collection; a views or createdAt value sent by the client changes neither the
  reply nor the store.
\<close>

theorem createRecipe_views_default:
  assumes "createRecipe now b st = (RecipeAdded m r, st')"
  shows "views r = Some (IntN 0) \<and> r \<in> set (recipes st') \<and>
         createRecipe now (b\<lparr>b_views := v, b_createdAt := c\<rparr>) st = (RecipeAdded m r, st')"
proof -
  have "views r = Some (IntN 0)"
    using createRecipe_added(1) [OF assms] by (rule newRecipe_views)
  moreover have "r \<in> set (recipes st')"
    using createRecipe_added(3) [OF assms] by simp
  moreover have "createRecipe now (b\<lparr>b_views := v, b_createdAt := c\<rparr>) st = createRecipe now b st"
    by (simp add: createRecipe_def newRecipe_ignores)
  ultimately show ?thesis using assms by simp
qed

theorem createRecipe_views_default_witness:
  "createRecipe 2 breadBody emptyStore = (RecipeAdded ''Recipe added successfully!'' bread, breadStore)
   \<and> b_views breadBody = Some (JNum 99)
   \<and> views bread = Some (IntN 0) \<and> bread \<in> set (recipes breadStore)
   \<and> createRecipe 2 (breadBody\<lparr>b_views := Some (JNum 7), b_createdAt := None\<rparr>) emptyStore =
       (RecipeAdded ''Recipe added successfully!'' bread, breadStore)"
  using createRecipe_views_default [OF createRecipe_breadBody, where v = "Some (JNum 7)" and c = None]
    createRecipe_breadBody
  by (simp add: breadBody_def)

subsection \<open>Malformed identities\<close>

text \<open>
  A route parameter that is not an identity never reaches the lookup: the cast fails,
  the handler's catch branch replies 400 and the store is left as it was.
\<close>

lemma malformed_identity:
  assumes "castObjectId rid = None"
  shows "getRecipe rid st = (BadRequest CastError, st)"
    and "incrementView rid st = (BadRequest CastError, st)"
    and "deleteRecipe now rid st = (BadRequest CastError, st)"
    and "updateRecipe rid b st = (BadRequest CastError, st)"
    and "listRecipesByUser rid st = (BadRequest CastError, st)"
    and "totalViewsByUser rid st = (BadRequest CastError, st)"
    and "mostViewedByUser rid st = (BadRequest CastError, st)"
  using assms
  by (simp_all add: getRecipe_def incrementView_def deleteRecipe_def archiveRecipe_def
      updateRecipe_def listRecipesByUser_def totalViewsByUser_def mostViewedByUser_def)

subsection \<open>Lookups\<close>

lemma findById_None: "findById i rs = None \<longleftrightarrow> i \<notin> set (map r_id rs)"
  by (auto simp: findById_def find_None_iff)

lemma findById_Some_id: "findById i rs = Some r \<Longrightarrow> r_id r = i \<and> r \<in> set rs"
  by (auto simp: findById_def find_Some_iff)

lemma findById_replaceById:
  "r_id r' = i \<Longrightarrow>
   findById j (replaceById i r' rs) = (if j = i \<and> findById i rs \<noteq> None then Some r' else findById j rs)"
  by (induction rs) (auto simp: findById_def)



lemma findById_append:
  "findById i (rs @ [r]) = (case findById i rs of Some x \<Rightarrow> Some x | None \<Rightarrow> if r_id r = i then Some r else None)"
  by (induction rs) (auto simp: findById_def)

subsection \<open>Numbers\<close>

lemma digitChar_0: "digitChar 0 = CHR ''0''"
  by code_simp

lemma digits_small: "n < 10 \<Longrightarrow> digits n = [digitChar n]"
  by (simp add: digits.simps)

lemma digits_step: "10 \<le> n \<Longrightarrow> digits n = digits (n div 10) @ [digitChar (n mod 10)]"
  by (subst digits.simps) simp

lemma digits_nonempty: "digits n \<noteq> []"
  by (subst digits.simps) simp

lemma fixed2_format:
  "fixed2 n = digits (n div 100) @ ''.'' @ [digitChar (n mod 100 div 10), digitChar (n mod 10)]"
proof -
  consider "n < 10" | "10 \<le> n" "n < 100" | "100 \<le> n" by linarith
  then show ?thesis
  proof cases
    case 1
    then show ?thesis
      by (simp add: fixed2_def digits_small digitChar_0 numeral_3_eq_3)
  next
    case 2
    then have "n div 10 < 10" by simp
    then show ?thesis using 2
      by (simp add: fixed2_def digits_step digits_small digitChar_0 numeral_3_eq_3)
  next
    case 3
    then have a: "10 \<le> n" and b: "10 \<le> n div 10" by simp_all
    have c: "n div 10 div 10 = n div 100"
      using div_mult2_eq [of n 10 10] by simp
    have d: "n div 10 mod 10 = n mod 100 div 10"
      using mod_mult2_eq [of n 10 10] by simp
    have e: "digits n = digits (n div 100) @ [digitChar (n mod 100 div 10), digitChar (n mod 10)]"
      by (simp only: digits_step [OF a] digits_step [OF b] c d append_assoc append_Cons append_Nil)
    have "digits (n div 100) \<noteq> []" by (rule digits_nonempty)
    then have l: "3 - length (digits n) = 0" "length (digits n) - 2 = length (digits (n div 100))"
      unfolding e by (simp_all add: Suc_le_eq)
    show ?thesis
      unfolding fixed2_def Let_def by (simp only: l replicate_0 append_Nil) (simp add: e)
  qed
qed

lemma bitLength_bounds: "0 < n \<Longrightarrow> 2 ^ (bitLength n - 1) \<le> n \<and> n < 2 ^ bitLength n"
proof (induction n rule: bitLength.induct)
  case (1 n)
  show ?case
  proof (cases "n div 2 = 0")
    case True
    with "1.prems" have "n = 1" by (simp add: div_eq_0_iff) 
    then show ?thesis by (simp add: bitLength.simps)
  next
    case False
    then have "0 < n div 2" by simp
    with "1.IH" "1.prems" have ih: "2 ^ (bitLength (n div 2) - 1) \<le> n div 2" "n div 2 < 2 ^ bitLength (n div 2)"
      by simp_all
    have l: "bitLength n = Suc (bitLength (n div 2))" using "1.prems" by (subst bitLength.simps) simp
    have p: "0 < bitLength (n div 2)" using \<open>0 < n div 2\<close> by (subst bitLength.simps) simp
    then obtain k where k: "bitLength (n div 2) = Suc k" by (cases "bitLength (n div 2)") auto
    from ih show ?thesis unfolding l k by simp linarith
  qed
qed


lemma pow2_powi: "pow2 e = 2 powi e"
  by (simp add: pow2_def power_int_def inverse_eq_divide power_one_over)

lemma pow2_pos: "0 < pow2 e"
  by (simp add: pow2_powi)

lemma pow2_add: "pow2 (i + j) = pow2 i * pow2 j"
  by (simp add: pow2_powi power_int_add)

lemma pow2_nat: "pow2 (int k) = 2 ^ k"
  by (simp add: pow2_def)

lemma pow2_diff: "pow2 (i - j) * pow2 j = pow2 i"
  using pow2_add [of "i - j" j] by simp

lemma roundHalfEven_near:
  assumes "0 < d"
  shows "\<bar>of_nat (roundHalfEven n d) - (of_nat n / of_nat d :: rat)\<bar> \<le> 1 / 2"
proof -
  define f r where "f = n div d" and "r = n mod d"
  have n: "n = d * f + r" and r: "r < d" using assms by (simp_all add: f_def r_def)
  have q: "(of_nat n / of_nat d :: rat) = of_nat f + of_nat r / of_nat d"
    using assms by (simp add: n field_simps)
  have d0: "0 < (of_nat d :: rat)" using assms by simp
  consider "2 * r < d" | "d < 2 * r" | "2 * r = d" by linarith
  then show ?thesis
  proof cases
    case 1
    then have "(of_nat (2 * r) :: rat) < of_nat d" by (simp only: of_nat_less_iff)
    then have "(of_nat r / of_nat d :: rat) < 1 / 2"
      using d0 by (simp add: field_simps)
    moreover have "0 \<le> (of_nat r / of_nat d :: rat)" by simp
    moreover have "roundHalfEven n d = f" using 1 by (simp add: roundHalfEven_def f_def r_def)
    ultimately show ?thesis unfolding q by simp
  next
    case 2
    then have "(of_nat d :: rat) < of_nat (2 * r)" by (simp only: of_nat_less_iff)
    then have "1 / 2 < (of_nat r / of_nat d :: rat)"
      using d0 by (simp add: field_simps)
    moreover have "(of_nat r / of_nat d :: rat) < 1" using r d0 by simp
    moreover have "roundHalfEven n d = f + 1" using 2 by (simp add: roundHalfEven_def f_def r_def)
    ultimately show ?thesis unfolding q by simp
  next
    case 3
    then have "(of_nat (2 * r) :: rat) = of_nat d" by (simp only: of_nat_eq_iff)
    then have "(of_nat r / of_nat d :: rat) = 1 / 2"
      using d0 by (simp add: field_simps)
    moreover have "roundHalfEven n d = f \<or> roundHalfEven n d = f + 1"
      using 3 by (simp add: roundHalfEven_def f_def r_def Let_def)
    ultimately show ?thesis unfolding q by auto
  qed
qed


lemma jsDivide_accurate:
  assumes "0 < a" and "0 < b"
  shows "\<exists>x. jsDivide a b = Num x \<and> 0 \<le> x \<and>
             \<bar>x - of_nat a / of_nat b\<bar> \<le> (of_nat a / of_nat b) / 2 ^ 53"
proof -
  define q :: rat where "q = of_nat a / of_nat b"
  define d where "d = int (bitLength a) - int (bitLength b)"
  define e where "e = (if of_nat a < (of_nat b :: rat) * pow2 d then d - 1 else d)"
  define m where "m = (if e \<le> 52 then roundHalfEven (a * 2 ^ nat (52 - e)) b
                 else roundHalfEven a (b * 2 ^ nat (e - 52)))"
  define s :: rat where "s = q * pow2 (52 - e)"
  have js: "jsDivide a b = Num (of_nat m * pow2 (e - 52))"
    using assms by (simp add: jsDivide_def Let_def d_def e_def m_def)
  have b0: "0 < (of_nat b :: rat)" and a0: "0 < (of_nat a :: rat)" using assms by simp_all
  have la: "0 < bitLength a" and lb: "0 < bitLength b"
    using assms by (subst bitLength.simps, simp)+
  have a_hi: "(of_nat a :: rat) < pow2 (int (bitLength a))"
    using bitLength_bounds [OF assms(1)] unfolding pow2_nat
    by (metis of_nat_less_iff of_nat_numeral of_nat_power)
  have a_lo: "pow2 (int (bitLength a) - 1) \<le> (of_nat a :: rat)"
  proof -
    have "int (bitLength a) - 1 = int (bitLength a - 1)" using la by simp
    then show ?thesis
      using bitLength_bounds [OF assms(1)] unfolding pow2_nat
      by (metis of_nat_le_iff of_nat_numeral of_nat_power pow2_nat)
  qed
  have b_hi: "(of_nat b :: rat) < pow2 (int (bitLength b))"
    using bitLength_bounds [OF assms(2)] unfolding pow2_nat
    by (metis of_nat_less_iff of_nat_numeral of_nat_power)
  have b_lo: "pow2 (int (bitLength b) - 1) \<le> (of_nat b :: rat)"
  proof -
    have "int (bitLength b) - 1 = int (bitLength b - 1)" using lb by simp
    then show ?thesis
      using bitLength_bounds [OF assms(2)] unfolding pow2_nat
      by (metis of_nat_le_iff of_nat_numeral of_nat_power pow2_nat)
  qed
  have up: "of_nat a < of_nat b * pow2 (d + 1)"
  proof -
    have "pow2 (int (bitLength a)) = pow2 (int (bitLength b) - 1) * pow2 (d + 1)"
      unfolding d_def pow2_add [symmetric] by simp
    also have "\<dots> \<le> of_nat b * pow2 (d + 1)"
      using b_lo pow2_pos [of "d + 1"] by (simp add: mult_right_mono)
    finally show ?thesis using a_hi by simp
  qed
  have low: "of_nat b * pow2 (d - 1) \<le> of_nat a"
  proof -
    have "of_nat b * pow2 (d - 1) \<le> pow2 (int (bitLength b)) * pow2 (d - 1)"
      using b_hi pow2_pos [of "d - 1"] by (simp add: mult_right_mono)
    also have "\<dots> = pow2 (int (bitLength a) - 1)"
      unfolding d_def pow2_add [symmetric] by simp
    finally show ?thesis using a_lo by simp
  qed
  have e_lo: "of_nat b * pow2 e \<le> of_nat a" and e_hi: "of_nat a < of_nat b * pow2 (e + 1)"
    using up low by (auto simp: e_def)
  have q_lo: "pow2 e \<le> q" using e_lo b0 by (simp add: q_def field_simps)
  have sm: "\<bar>of_nat m - s\<bar> \<le> 1 / 2"
  proof (cases "e \<le> 52")
    case True
    then have "pow2 (52 - e) = 2 ^ nat (52 - e)" by (simp add: pow2_def)
    then have "s = of_nat (a * 2 ^ nat (52 - e)) / of_nat b" by (simp add: s_def q_def)
    moreover have "m = roundHalfEven (a * 2 ^ nat (52 - e)) b" using True by (simp add: m_def)
    ultimately show ?thesis
      using roundHalfEven_near [OF assms(2), of "a * 2 ^ nat (52 - e)"] by simp
  next
    case False
    then have "pow2 (52 - e) = 1 / 2 ^ nat (e - 52)" by (simp add: pow2_def)
    then have "s = of_nat a / of_nat (b * 2 ^ nat (e - 52))" by (simp add: s_def q_def)
    moreover have "m = roundHalfEven a (b * 2 ^ nat (e - 52))" using False by (simp add: m_def)
    moreover have "0 < b * 2 ^ nat (e - 52)" using assms(2) by simp
    ultimately show ?thesis
      using roundHalfEven_near [of "b * 2 ^ nat (e - 52)" a] by simp
  qed
  have sq: "s * pow2 (e - 52) = q"
  proof -
    have "pow2 (52 - e) * pow2 (e - 52) = pow2 0" unfolding pow2_add [symmetric] by simp
    then show ?thesis by (simp add: s_def pow2_def mult.assoc)
  qed
  have "of_nat m * pow2 (e - 52) - q = (of_nat m - s) * pow2 (e - 52)"
    by (simp add: sq [symmetric] algebra_simps)
  then have "\<bar>of_nat m * pow2 (e - 52) - q\<bar> = \<bar>of_nat m - s\<bar> * pow2 (e - 52)"
    using pow2_pos [of "e - 52"] by (simp add: abs_mult)
  also have "\<dots> \<le> 1 / 2 * pow2 (e - 52)"
    using sm pow2_pos [of "e - 52"] by (simp add: mult_right_mono)
  also have "\<dots> = pow2 e / 2 ^ 53"
  proof -
    have "pow2 e = pow2 (e - 52) * pow2 52" using pow2_diff [of e 52] by simp
    then show ?thesis by (simp add: pow2_def)
  qed
  also have "\<dots> \<le> q / 2 ^ 53" using q_lo by (simp add: divide_right_mono)
  finally have "\<bar>of_nat m * pow2 (e - 52) - q\<bar> \<le> q / 2 ^ 53" .
  moreover have "0 \<le> of_nat m * pow2 (e - 52)" using pow2_pos [of "e - 52"] by simp
  ultimately show ?thesis using js unfolding q_def by blast
qed


lemma floor_half_near:
  fixes y :: rat
  assumes "0 \<le> y"
  shows "\<bar>of_nat (nat \<lfloor>y + 1 / 2\<rfloor>) - y\<bar> \<le> 1 / 2"
proof -
  define z where "z = \<lfloor>y + 1 / 2\<rfloor>"
  have h1: "of_int z \<le> y + 1 / 2" unfolding z_def by (rule of_int_floor_le)
  have h2: "y + 1 / 2 < of_int z + 1"
    unfolding z_def using floor_correct [of "y + 1 / 2"] by simp
  have "0 \<le> z" unfolding z_def using assms by simp
  then have h3: "(of_nat (nat z) :: rat) = of_int z" by simp
  have "\<bar>of_int z - y\<bar> \<le> 1 / 2" using h1 h2 by linarith
  then show ?thesis unfolding z_def [symmetric] h3 .
qed

lemma toFixed2_jsDivide:
  assumes "0 < b" and "a < 2 ^ 53"
  shows "\<exists>x n. jsDivide a b = Num x \<and>
           \<bar>x - of_nat a / of_nat b\<bar> \<le> (of_nat a / of_nat b) / 2 ^ 53 \<and>
           \<bar>of_nat n - 100 * x\<bar> \<le> 1 / 2 \<and>
           toFixed2 (jsDivide a b) =
             Some (digits (n div 100) @ ''.'' @ [digitChar (n mod 100 div 10), digitChar (n mod 10)])"
proof -
  obtain x where js: "jsDivide a b = Num x" and x0: "0 \<le> x"
    and acc: "\<bar>x - of_nat a / of_nat b\<bar> \<le> (of_nat a / of_nat b) / 2 ^ 53"
  proof (cases "a = 0")
    case True
    then have "jsDivide a b = Num 0" using assms(1) by (simp add: jsDivide_def)
    then show ?thesis using that [of 0] True by simp
  next
    case False
    then show ?thesis using jsDivide_accurate [of a b] assms(1) that by auto
  qed
  define q :: rat where "q = of_nat a / of_nat b"
  have "q \<le> of_nat a"
  proof -
    have "(1 :: rat) \<le> of_nat b" using assms(1) by simp
    then have "of_nat a / of_nat b \<le> (of_nat a / 1 :: rat)"
      by (intro divide_left_mono) simp_all
    then show ?thesis by (simp add: q_def)
  qed
  moreover have "(of_nat a :: rat) < 2 ^ 53"
    using assms(2) by (metis of_nat_less_iff of_nat_numeral of_nat_power)
  moreover have "0 \<le> q" by (simp add: q_def)
  moreover have "x \<le> q + q / 2 ^ 53" using acc unfolding q_def by (simp add: abs_le_iff)
  ultimately have "x < 2 ^ 54" by simp
  then have small: "\<not> 10 ^ 21 \<le> \<bar>x\<bar>" using x0 by simp
  define n where "n = nat \<lfloor>\<bar>x\<bar> * 100 + 1 / 2\<rfloor>"
  have "\<bar>of_nat n - 100 * x\<bar> \<le> 1 / 2"
    using floor_half_near [of "100 * x"] x0 by (simp add: n_def mult.commute)
  moreover have "toFixed2 (jsDivide a b) =
             Some (digits (n div 100) @ ''.'' @ [digitChar (n mod 100 div 10), digitChar (n mod 10)])"
    using small x0 by (simp add: js n_def fixed2_format)
  ultimately show ?thesis using js acc by blast
qed







lemma floor_rat_numeral: "\<lfloor>numeral a / numeral b :: rat\<rfloor> = numeral a div numeral b"
  using floor_divide_of_int_eq [where ?'a = rat, of "numeral a" "numeral b"] by simp

lemma jsDivide_eval:
  assumes "0 < a" and "0 < b"
    and "int (bitLength a) - int (bitLength b) = d"
    and "e = (if of_nat a < (of_nat b :: rat) * pow2 d then d - 1 else d)"
    and "e \<le> 52"
    and "roundHalfEven (a * 2 ^ nat (52 - e)) b = m"
  shows "jsDivide a b = Num (of_nat m * pow2 (e - 52))"
  using assms by (simp add: jsDivide_def Let_def)

lemma bitLength_2_3: "bitLength 2 = 2" "bitLength 3 = 2"
  by (simp_all add: bitLength.simps)

lemma jsDivide_2_3: "jsDivide 2 3 = Num (6004799503160661 / 9007199254740992)"
proof -
  have d: "int (bitLength 2) - int (bitLength 3) = 0" by (simp add: bitLength_2_3)
  have e: "(-1 :: int) = (if of_nat 2 < (of_nat 3 :: rat) * pow2 0 then 0 - 1 else 0)"
    by (simp add: pow2_def)
  have m: "roundHalfEven (2 * 2 ^ nat (52 - (-1))) 3 = 6004799503160661"
    by (simp add: roundHalfEven_def Let_def)
  have p: "pow2 (- 53) = 1 / 9007199254740992" by (simp add: pow2_def)
  show ?thesis
    using jsDivide_eval [of 2 3 0 "-1" 6004799503160661, OF _ _ d e _ m] by (simp add: p)
qed

lemma fixed2_67: "fixed2 67 = ''0.67''"
  by code_simp

lemma toFixed2_2_3: "toFixed2 (jsDivide 2 3) = Some ''0.67''"
  by (simp add: jsDivide_2_3 floor_rat_numeral fixed2_67)




subsection \<open>Rounding to a double\<close>

lemma roundHalfEven_one: "roundHalfEven n 1 = n"
  by (simp add: roundHalfEven_def)

lemma roundHalfEven_exact: "0 < d \<Longrightarrow> roundHalfEven (d * k) d = k"
  by (simp add: roundHalfEven_def)

lemma bitLength_pos: "0 < n \<Longrightarrow> 0 < bitLength n"
  by (subst bitLength.simps) simp

lemma bitLength_one: "bitLength 1 = 1" "bitLength (Suc 0) = Suc 0"
  by (simp_all add: bitLength.simps)

lemma bitLength_le: "n < 2 ^ k \<Longrightarrow> bitLength n \<le> k"
proof (induction n arbitrary: k rule: bitLength.induct)
  case (1 n)
  show ?case
  proof (cases "n = 0")
    case True
    then show ?thesis by (simp add: bitLength.simps)
  next
    case False
    then obtain j where k: "k = Suc j" using "1.prems" by (cases k) auto
    then have "n div 2 < 2 ^ j" using "1.prems" by auto
    then have "bitLength (n div 2) \<le> j" using "1.IH" False by simp
    then show ?thesis using False k by (subst bitLength.simps) simp
  qed
qed

lemma doubleExponent_whole:
  assumes "0 < a"
  shows "doubleExponent a 1 = int (bitLength a) - 1"
proof -
  have la: "0 < bitLength a" using assms by (rule bitLength_pos)
  then have "int (bitLength a) - 1 = int (bitLength a - 1)" by simp
  then have lo: "pow2 (int (bitLength a) - 1) \<le> (of_nat a :: rat)"
    using bitLength_bounds [OF assms] unfolding pow2_nat
    by (metis of_nat_le_iff of_nat_numeral of_nat_power pow2_nat)
  have "\<not> (of_nat a < (of_nat 1 :: rat) * pow2 (int (bitLength a) - int (bitLength 1)))"
    using lo by (simp add: bitLength_one)
  then have "doubleExponent a 1 = max (int (bitLength a) - int (bitLength 1)) (- 1022)"
    unfolding doubleExponent_def Let_def by (simp only: if_False)
  then show ?thesis using la by (simp add: bitLength_one)
qed

text \<open>A whole number of magnitude at most \<open>2^53\<close> is a double.\<close>

lemma roundPos_whole:
  assumes "0 < a" and "a \<le> 2 ^ 53"
  shows "roundPos a 1 = Some (of_nat a)"
proof -
  define d where "d = int (bitLength a) - 1"
  have E: "doubleExponent a 1 = d" using doubleExponent_whole [OF assms(1)] by (simp add: d_def)
  have la: "0 < bitLength a" using assms(1) by (rule bitLength_pos)
  have d0: "0 \<le> d" using la by (simp add: d_def)
  have d53: "d \<le> 53"
  proof -
    have "a < 2 ^ 54" using assms(2) by simp
    then have "bitLength a \<le> 54" by (rule bitLength_le)
    then show ?thesis by (simp add: d_def)
  qed
  have y: "of_nat (if d \<le> 52 then roundHalfEven (a * 2 ^ nat (52 - d)) 1
                   else roundHalfEven a (1 * 2 ^ nat (d - 52))) * pow2 (d - 52) = (of_nat a :: rat)"
  proof (cases "d \<le> 52")
    case True
    have "pow2 (52 - d) * pow2 (d - 52) = pow2 0" unfolding pow2_add [symmetric] by simp
    moreover have "pow2 (52 - d) = 2 ^ nat (52 - d)" using True by (simp add: pow2_def)
    ultimately have one: "(2 ^ nat (52 - d) :: rat) * pow2 (d - 52) = 1" by (simp add: pow2_def)
    have "of_nat (roundHalfEven (a * 2 ^ nat (52 - d)) 1) * pow2 (d - 52) =
          (of_nat a :: rat) * (2 ^ nat (52 - d) * pow2 (d - 52))"
      by (simp only: roundHalfEven_one of_nat_mult of_nat_power of_nat_numeral mult.assoc)
    then show ?thesis using True one by simp
  next
    case False
    then have d: "d = 53" using d53 by simp
    have "d = int (bitLength a - 1)" using la by (simp add: d_def)
    then have "(2 ^ 53 :: nat) \<le> a" using bitLength_bounds [OF assms(1)] d by simp
    then have a: "a = 2 * 2 ^ 52" using assms(2) by simp
    have "roundHalfEven a (1 * 2 ^ nat (d - 52)) = 2 ^ 52"
      unfolding a d using roundHalfEven_exact [of 2 "2 ^ 52"] by simp
    then show ?thesis using False d a by (simp add: pow2_def)
  qed
  have small: "\<not> (overflowLimit \<le> (of_nat a :: rat))"
  proof -
    have "(of_nat a :: rat) \<le> of_nat (2 ^ 53)" using assms(2) by (simp only: of_nat_le_iff)
    then show ?thesis by (simp add: overflowLimit_def)
  qed
  show ?thesis
    unfolding roundPos_def Let_def E y using small by simp
qed

lemma toDouble_of_nat: "0 < a \<Longrightarrow> toDouble (of_nat a) = roundPos a 1"
  by (simp add: toDouble_def option.map_ident)

lemma toDouble_minus: "toDouble (- x) = map_option uminus (toDouble x)"
proof (cases "x = 0")
  case True
  then show ?thesis by (simp add: toDouble_def)
next
  case False
  show ?thesis
  proof (cases "x < 0")
    case True
    then show ?thesis using False
      by (simp add: toDouble_def option.map_comp o_def option.map_ident)
  next
    case False
    then have "0 < x" using \<open>x \<noteq> 0\<close> by simp
    then show ?thesis
      by (simp add: toDouble_def option.map_ident)
  qed
qed

lemma toDouble_int:
  assumes "\<bar>n\<bar> \<le> 2 ^ 53"
  shows "toDouble (of_int n) = Some (of_int n)"
proof -
  consider "n = 0" | "0 < n" | "n < 0" by linarith
  then show ?thesis
  proof cases
    case 1
    then show ?thesis by (simp add: toDouble_def)
  next
    case 2
    then have a: "0 < nat n" and b: "nat n \<le> 2 ^ 53" using assms by simp_all
    have "toDouble (of_nat (nat n)) = Some (of_nat (nat n))"
      by (simp only: toDouble_of_nat [OF a] roundPos_whole [OF a b])
    then show ?thesis using 2 by simp
  next
    case 3
    then have a: "0 < nat (- n)" and b: "nat (- n) \<le> 2 ^ 53" using assms by simp_all
    have "toDouble (of_nat (nat (- n))) = Some (of_nat (nat (- n)))"
      by (simp only: toDouble_of_nat [OF a] roundPos_whole [OF a b])
    then have "toDouble (- of_int n) = Some (- of_int n)" using 3 by simp
    then have "toDouble (- (- of_int n)) = Some (- (- of_int n))"
      by (simp only: toDouble_minus [of "- of_int n"] option.map)
    then show ?thesis by simp
  qed
qed

text \<open>Rounding \<open>2^53 + 1\<close>: a tie between \<open>2^53\<close> and \<open>2^53 + 2\<close>, resolved to the even one.\<close>

lemma bitLength_big: "bitLength 9007199254740993 = 54"
  by (simp add: bitLength.simps)

lemma roundPos_big: "roundPos 9007199254740993 1 = Some 9007199254740992"
proof -
  have E: "doubleExponent 9007199254740993 1 = 53"
    using doubleExponent_whole [of 9007199254740993] by (simp add: bitLength_big)
  have m: "roundHalfEven 9007199254740993 (1 * 2 ^ nat (53 - 52)) = 4503599627370496"
    by (simp add: roundHalfEven_def Let_def)
  have p: "pow2 (53 - 52) = 2" by (simp add: pow2_def)
  have s: "\<not> (overflowLimit \<le> 9007199254740992)" by (simp add: overflowLimit_def)
  show ?thesis
    unfolding roundPos_def Let_def E by (simp only: m p) (simp add: s)
qed

lemma toDouble_big: "toDouble 9007199254740993 = Some 9007199254740992"
  using toDouble_of_nat [of 9007199254740993] roundPos_big by simp


subsection \<open>Views\<close>

text \<open>
  Incrementing a stored whole number \<open>k\<close> with \<open>-2^53 \<le> k < 2^53\<close> gives \<open>k + 1\<close>,
  whichever way it is stored.
\<close>

lemma incNumber_whole:
  assumes "numValue v = of_int k" and "- (2 ^ 53) \<le> k" and "k < 2 ^ 53"
  shows "\<exists>v'. incNumber v = Some v' \<and> numValue v' = of_int k + 1"
proof (cases v)
  case (IntN i)
  then have "i = k" using assms(1) by (simp add: numValue_def)
  then show ?thesis using IntN assms(2,3) by (simp add: incNumber_def numValue_def)
next
  case (DoubleN x)
  then have x: "x = of_int k" using assms(1) by (simp add: numValue_def)
  have "\<bar>k\<bar> \<le> 2 ^ 53" and "\<bar>k + 1\<bar> \<le> 2 ^ 53" using assms(2,3) by simp_all
  then have "toDouble (of_int k) = Some (of_int k)"
    and "toDouble (of_int (k + 1)) = Some (of_int (k + 1))"
    by (simp_all only: toDouble_int)
  then show ?thesis using DoubleN x by (simp add: incNumber_def numValue_def)
qed

lemma incViews_found:
  assumes "findById i (recipes st) = Some r" and "views r = Some v" and "incNumber v = Some v'"
  shows "incViews i st =
           Found (r\<lparr>views := Some v'\<rparr>,
                  st\<lparr>recipes := replaceById i (r\<lparr>views := Some v'\<rparr>) (recipes st)\<rparr>)"
  using assms by (simp add: incViews_def Let_def)

lemma incViews_missing: "findById i (recipes st) = None \<Longrightarrow> incViews i st = Missing"
  by (simp add: incViews_def)

lemma incViews_Found_views:
  "incViews i st = Found (r', st') \<Longrightarrow> views r' \<noteq> None \<and> viewsRead r' \<noteq> None"
  by (auto simp: incViews_def Let_def viewsRead_def split: option.splits)

text \<open>The author of the reply is the user the reference names, or null when there is none.\<close>

lemma findUser_Some: "findUser i us = Some u \<Longrightarrow> u \<in> set us \<and> u_id u = i"
  by (auto simp: findUser_def find_Some_iff)

lemma findUser_None: "findUser i us = None \<longleftrightarrow> i \<notin> set (map u_id us)"
  by (auto simp: findUser_def find_None_iff)

lemma getRecipe_found:
  assumes "castObjectId rid = Some i" and "findById i (recipes st) = Some r"
    and "views r = Some v" and "incNumber v = Some v'"
  shows "getRecipe rid st =
           (RecipeDoc (r\<lparr>views := Some v'\<rparr>) (findUser (author r) (users st)),
            st\<lparr>recipes := replaceById i (r\<lparr>views := Some v'\<rparr>) (recipes st)\<rparr>)"
  using assms by (simp add: getRecipe_def incViews_found)

lemma getRecipe_missing:
  assumes "castObjectId rid = Some i" and "findById i (recipes st) = None"
  shows "getRecipe rid st = (NotFoundMessage ''Recipe not found'', st)"
  using assms by (simp add: getRecipe_def incViews_missing)

lemma getRecipe_stored:
  assumes "castObjectId rid = Some i" and "findById i (recipes st) = Some r"
    and "views r = Some v" and "incNumber v = Some v'"
  shows "findById i (recipes (snd (getRecipe rid st))) = Some (r\<lparr>views := Some v'\<rparr>)"
    and "users (snd (getRecipe rid st)) = users st"
  using findById_Some_id [OF assms(2)]
  by (simp_all add: getRecipe_found [OF assms] findById_replaceById assms(2))

lemma getRecipeTimes_fresh:
  assumes "castObjectId rid = Some i" and "findById i (recipes st) = Some r"
    and "views r = Some (IntN k)" and "0 \<le> k" and "k + int n \<le> 2 ^ 53"
  shows "findById i (recipes (getRecipeTimes n rid st)) = Some (r\<lparr>views := Some (IntN (k + int n))\<rparr>)
         \<and> users (getRecipeTimes n rid st) = users st"
  using assms(2-5)
proof (induction n arbitrary: st r k)
  case 0
  then show ?case by simp
next
  case (Suc n)
  have inc: "incNumber (IntN k) = Some (IntN (k + 1))"
    using Suc.prems(3,4) by (simp add: incNumber_def)
  note st = getRecipe_stored [OF assms(1) Suc.prems(1,2) inc]
  have "findById i (recipes (getRecipeTimes n rid (snd (getRecipe rid st)))) =
          Some (r\<lparr>views := Some (IntN (k + 1))\<rparr>\<lparr>views := Some (IntN (k + 1 + int n))\<rparr>)
        \<and> users (getRecipeTimes n rid (snd (getRecipe rid st))) = users (snd (getRecipe rid st))"
    using Suc.prems(3,4) by (intro Suc.IH [OF st(1)]) simp_all
  then show ?case using st(2) by (simp add: add.assoc add.commute)
qed


lemma incNumber_bigViews: "incNumber (DoubleN 9007199254740992) = Some (DoubleN 9007199254740992)"
proof -
  have "toDouble (of_int 9007199254740992) = Some (of_int 9007199254740992)"
    by (rule toDouble_int) simp
  then have a: "toDouble 9007199254740992 = Some 9007199254740992" by simp
  have b: "toDouble (9007199254740992 + 1) = Some 9007199254740992"
    using toDouble_big by simp
  show ?thesis by (simp only: incNumber_def bsonNumber.case a b option.map, simp)
qed

lemma findById_bigViews:
  "findById 0 (recipes bigViews) = Some (sample 0 0 (Some (DoubleN 9007199254740992)))"
  by (simp add: findById_def bigViews_def sample_def bread_def)

lemma replace_bigViews:
  "bigViews\<lparr>recipes := replaceById 0
       ((sample 0 0 (Some (DoubleN 9007199254740992)))\<lparr>views := Some (DoubleN 9007199254740992)\<rparr>)
       (recipes bigViews)\<rparr> = bigViews"
  "(sample 0 0 (Some (DoubleN 9007199254740992)))\<lparr>views := Some (DoubleN 9007199254740992)\<rparr> =
     sample 0 0 (Some (DoubleN 9007199254740992))"
  "bigViews\<lparr>recipes := replaceById 0 (sample 0 0 (Some (DoubleN 9007199254740992)))
       (recipes bigViews)\<rparr> = bigViews"
  by (simp_all add: bigViews_def sample_def bread_def)

text \<open>
  C3 as stated does not hold: on a recipe whose views are \<open>2^53\<close> (set by an update,
  stored as a double) GET /recipe/:recipeId replies with views \<open>2^53\<close> again and
  leaves the store as it was, since \<open>2^53 + 1\<close> is no double.
\<close>

theorem getRecipe_big_counterexample:
  "castObjectId zeroId = Some 0 \<and>
   findById 0 (recipes bigViews) = Some (sample 0 0 (Some (DoubleN 9007199254740992))) \<and>
   getRecipe zeroId bigViews =
     (RecipeDoc (sample 0 0 (Some (DoubleN 9007199254740992))) None, bigViews)"
proof -
  have "views (sample 0 0 (Some (DoubleN 9007199254740992))) = Some (DoubleN 9007199254740992)"
    by (simp add: sample_def)
  from getRecipe_found [OF castObjectId_zeroId findById_bigViews this incNumber_bigViews]
  have "getRecipe zeroId bigViews =
     (RecipeDoc (sample 0 0 (Some (DoubleN 9007199254740992)))
        (findUser (author (sample 0 0 (Some (DoubleN 9007199254740992)))) (users bigViews)), bigViews)"
    by (simp only: replace_bigViews)
  moreover have "findUser (author (sample 0 0 (Some (DoubleN 9007199254740992)))) (users bigViews) = None"
    by (simp add: findUser_def bigViews_def)
  ultimately show ?thesis using castObjectId_zeroId findById_bigViews by simp
qed

text \<open>
  C3, amended. For a well-formed identity: on an existing recipe whose views are a whole
  number \<open>k\<close> with \<open>-2^53 \<le> k < 2^53\<close>, GET /recipe/:recipeId stores and returns the
  document with views \<open>k + 1\<close> and nothing else changed, together with the user its
  author names, or null when no user has that identity; on an identity that resolves to
  no recipe it replies 404 and changes nothing; and after a recipe has been created, the
  call number \<open>n + 1\<close> replies with views \<open>n + 1\<close>, for \<open>n + 1 \<le> 2^53\<close>.
\<close>

theorem getRecipe_counts_views:
  assumes "castObjectId rid = Some i"
  shows "(findById i (recipes st) = Some r \<and> views r = Some v \<and> numValue v = of_int k \<and>
          - (2 ^ 53) \<le> k \<and> k < 2 ^ 53 \<longrightarrow>
            (\<exists>v' a. getRecipe rid st =
                      (RecipeDoc (r\<lparr>views := Some v'\<rparr>) a,
                       st\<lparr>recipes := replaceById i (r\<lparr>views := Some v'\<rparr>) (recipes st)\<rparr>) \<and>
                    numValue v' = of_int k + 1 \<and>
                    findById i (recipes (snd (getRecipe rid st))) = Some (r\<lparr>views := Some v'\<rparr>) \<and>
                    (\<forall>u. a = Some u \<longrightarrow> u \<in> set (users st) \<and> u_id u = author r) \<and>
                    (a = None \<longrightarrow> author r \<notin> set (map u_id (users st)))))
       \<and> (findById i (recipes st) = None \<longrightarrow>
            getRecipe rid st = (NotFoundMessage ''Recipe not found'', st))
       \<and> (createRecipe now b st = (RecipeAdded m c, st1) \<and> r_id c = i \<and> int n < 2 ^ 53 \<longrightarrow>
            (\<exists>a. fst (getRecipe rid (getRecipeTimes n rid st1)) =
                    RecipeDoc (c\<lparr>views := Some (IntN (int n + 1))\<rparr>) a \<and>
                  (\<forall>u. a = Some u \<longrightarrow> u \<in> set (users st) \<and> u_id u = author c) \<and>
                  (a = None \<longrightarrow> author c \<notin> set (map u_id (users st)))))"
proof (intro conjI impI)
  assume a: "findById i (recipes st) = Some r \<and> views r = Some v \<and> numValue v = of_int k \<and>
          - (2 ^ 53) \<le> k \<and> k < 2 ^ 53"
  then obtain v' where inc: "incNumber v = Some v'" and val: "numValue v' = of_int k + 1"
    using incNumber_whole [of v k] by blast
  from a have f: "findById i (recipes st) = Some r" and vr: "views r = Some v" by simp_all
  let ?a = "findUser (author r) (users st)"
  have "getRecipe rid st =
          (RecipeDoc (r\<lparr>views := Some v'\<rparr>) ?a,
           st\<lparr>recipes := replaceById i (r\<lparr>views := Some v'\<rparr>) (recipes st)\<rparr>)"
    by (rule getRecipe_found [OF assms f vr inc])
  moreover have "findById i (recipes (snd (getRecipe rid st))) = Some (r\<lparr>views := Some v'\<rparr>)"
    by (rule getRecipe_stored(1) [OF assms f vr inc])
  moreover have "\<forall>u. ?a = Some u \<longrightarrow> u \<in> set (users st) \<and> u_id u = author r"
    using findUser_Some by blast
  moreover have "?a = None \<longrightarrow> author r \<notin> set (map u_id (users st))"
    by (simp add: findUser_None)
  ultimately show "\<exists>v' a. getRecipe rid st =
                      (RecipeDoc (r\<lparr>views := Some v'\<rparr>) a,
                       st\<lparr>recipes := replaceById i (r\<lparr>views := Some v'\<rparr>) (recipes st)\<rparr>) \<and>
                    numValue v' = of_int k + 1 \<and>
                    findById i (recipes (snd (getRecipe rid st))) = Some (r\<lparr>views := Some v'\<rparr>) \<and>
                    (\<forall>u. a = Some u \<longrightarrow> u \<in> set (users st) \<and> u_id u = author r) \<and>
                    (a = None \<longrightarrow> author r \<notin> set (map u_id (users st)))"
    using val by (intro exI [of _ v'] exI [of _ ?a]) simp
next
  assume "findById i (recipes st) = None"
  then show "getRecipe rid st = (NotFoundMessage ''Recipe not found'', st)"
    using assms by (rule getRecipe_missing [rotated])
next
  assume a: "createRecipe now b st = (RecipeAdded m c, st1) \<and> r_id c = i \<and> int n < 2 ^ 53"
  then have c: "createRecipe now b st = (RecipeAdded m c, st1)" and ri: "r_id c = i"
    and n: "int n < 2 ^ 53" by simp_all
  have v: "views c = Some (IntN 0)" using createRecipe_added(1) [OF c] by (rule newRecipe_views)
  have "findById i (recipes st) = None"
    using createRecipe_added(2) [OF c] ri by (simp add: findById_None)
  then have f: "findById i (recipes st1) = Some c"
    using createRecipe_added(3) [OF c] ri by (simp add: findById_append)
  have u: "users st1 = users st" using createRecipe_added(3) [OF c] by simp
  let ?st = "getRecipeTimes n rid st1"
  from getRecipeTimes_fresh [OF assms f v, of n] n
  have fn: "findById i (recipes ?st) = Some (c\<lparr>views := Some (IntN (int n))\<rparr>)"
    and un: "users ?st = users st"
    using u by simp_all
  have inc: "incNumber (IntN (int n)) = Some (IntN (int n + 1))"
    using n by (simp add: incNumber_def)
  let ?a = "findUser (author c) (users st)"
  have "fst (getRecipe rid ?st) = RecipeDoc (c\<lparr>views := Some (IntN (int n + 1))\<rparr>) ?a"
    using getRecipe_found [OF assms fn _ inc] un by simp
  moreover have "\<forall>u. ?a = Some u \<longrightarrow> u \<in> set (users st) \<and> u_id u = author c"
    using findUser_Some by blast
  moreover have "?a = None \<longrightarrow> author c \<notin> set (map u_id (users st))"
    by (simp add: findUser_None)
  ultimately show "\<exists>a. fst (getRecipe rid (getRecipeTimes n rid st1)) =
                    RecipeDoc (c\<lparr>views := Some (IntN (int n + 1))\<rparr>) a \<and>
                  (\<forall>u. a = Some u \<longrightarrow> u \<in> set (users st) \<and> u_id u = author c) \<and>
                  (a = None \<longrightarrow> author c \<notin> set (map u_id (users st)))"
    by (intro exI [of _ ?a]) simp
qed


lemma findById_annStore:
  "findById 0 (recipes annStore) = Some (sample 0 10 (Some (IntN 41)))"
  "findById 1 (recipes annStore) = Some (sample 1 7 (Some (IntN 0)))"
  "findById 11 (recipes annStore) = None"
  by (simp_all add: findById_def annStore_def sample_def bread_def)

lemma getRecipe_annStore:
  "getRecipe zeroId annStore =
     (RecipeDoc (sample 0 10 (Some (IntN 42))) (Some ann),
      annStore\<lparr>recipes := [sample 0 10 (Some (IntN 42)), sample 1 7 (Some (IntN 0))]\<rparr>)"
  "getRecipe oneId annStore =
     (RecipeDoc (sample 1 7 (Some (IntN 1))) None,
      annStore\<lparr>recipes := [sample 0 10 (Some (IntN 41)), sample 1 7 (Some (IntN 1))]\<rparr>)"
  using getRecipe_found [OF castObjectId_zeroId findById_annStore(1), of "IntN 41" "IntN 42"]
    getRecipe_found [OF castObjectId_oneId findById_annStore(2), of "IntN 0" "IntN 1"]
  by (simp_all add: incNumber_def annStore_def sample_def bread_def ann_def findUser_def)

theorem getRecipe_counts_views_witness:
  "castObjectId zeroId = Some 0 \<and>
   findById 0 (recipes annStore) = Some (sample 0 10 (Some (IntN 41))) \<and>
   views (sample 0 10 (Some (IntN 41))) = Some (IntN 41) \<and>
   numValue (IntN 41) = of_int 41 \<and>
   getRecipe zeroId annStore =
     (RecipeDoc (sample 0 10 (Some (IntN 42))) (Some ann),
      annStore\<lparr>recipes := [sample 0 10 (Some (IntN 42)), sample 1 7 (Some (IntN 0))]\<rparr>) \<and>
   numValue (IntN 42) = of_int 41 + 1 \<and>
   findById 0 (recipes (snd (getRecipe zeroId annStore))) = Some (sample 0 10 (Some (IntN 42))) \<and>
   ann \<in> set (users annStore) \<and> u_id ann = author (sample 0 10 (Some (IntN 41))) \<and>
   castObjectId elevenId = Some 11 \<and>
   findById 11 (recipes annStore) = None \<and>
   getRecipe elevenId annStore = (NotFoundMessage ''Recipe not found'', annStore) \<and>
   createRecipe 2 annBody annStore =
     (RecipeAdded ''Recipe added successfully!'' scones,
      annStore\<lparr>nextId := 12, recipes := recipes annStore @ [scones]\<rparr>) \<and>
   r_id scones = 11 \<and>
   fst (getRecipe elevenId
          (getRecipeTimes 3 elevenId
             (annStore\<lparr>nextId := 12, recipes := recipes annStore @ [scones]\<rparr>))) =
     RecipeDoc (scones\<lparr>views := Some (IntN 4)\<rparr>) (Some ann)"
proof -
  note first = getRecipe_counts_views [OF castObjectId_zeroId, of annStore
      "sample 0 10 (Some (IntN 41))" "IntN 41" 41]
  note second = getRecipe_counts_views [OF castObjectId_elevenId, of annStore _ _ _ 2 annBody
      "''Recipe added successfully!''" scones
      "annStore\<lparr>nextId := 12, recipes := recipes annStore @ [scones]\<rparr>" 3]
  have v: "views (sample 0 10 (Some (IntN 41))) = Some (IntN 41)"
    and n: "numValue (IntN 41) = of_int 41" "numValue (IntN 42) = of_int 41 + 1"
    and a: "author (sample 0 10 (Some (IntN 41))) = 10" "u_id ann = 10" "author scones = 10"
      "users annStore = [ann]"
    and i: "r_id scones = 11"
    by (simp_all add: sample_def numValue_def ann_def scones_def annStore_def)
  have p: "findById 0 (recipes annStore) = Some (sample 0 10 (Some (IntN 41))) \<and>
      views (sample 0 10 (Some (IntN 41))) = Some (IntN 41) \<and>
      numValue (IntN 41) = of_int 41 \<and> - (2 ^ 53) \<le> (41::int) \<and> (41::int) < 2 ^ 53"
    by (simp add: findById_annStore v n)
  from first [THEN conjunct1, THEN mp, OF p]
  obtain v' w where g: "getRecipe zeroId annStore =
      (RecipeDoc ((sample 0 10 (Some (IntN 41)))\<lparr>views := Some v'\<rparr>) w,
       annStore\<lparr>recipes := replaceById 0 ((sample 0 10 (Some (IntN 41)))\<lparr>views := Some v'\<rparr>)
         (recipes annStore)\<rparr>)"
    and s: "findById 0 (recipes (snd (getRecipe zeroId annStore))) =
              Some ((sample 0 10 (Some (IntN 41)))\<lparr>views := Some v'\<rparr>)"
    and w: "\<forall>u. w = Some u \<longrightarrow> u \<in> set (users annStore) \<and> u_id u = author (sample 0 10 (Some (IntN 41)))"
    by (elim exE conjE) (rule that)
  from g getRecipe_annStore(1) have v': "v' = IntN 42" and w': "w = Some ann"
    by (simp_all add: sample_def bread_def)
  from s v' have s': "findById 0 (recipes (snd (getRecipe zeroId annStore))) =
      Some (sample 0 10 (Some (IntN 42)))"
    by (simp add: sample_def)
  from w w' have u: "ann \<in> set (users annStore) \<and> u_id ann = author (sample 0 10 (Some (IntN 41)))"
    by simp
  from second [THEN conjunct2, THEN conjunct1, THEN mp, OF findById_annStore(3)]
  have m: "getRecipe elevenId annStore = (NotFoundMessage ''Recipe not found'', annStore)"
    by simp
  have q: "createRecipe 2 annBody annStore =
     (RecipeAdded ''Recipe added successfully!'' scones,
      annStore\<lparr>nextId := 12, recipes := recipes annStore @ [scones]\<rparr>) \<and>
     r_id scones = 11 \<and> int 3 < 2 ^ 53"
    using createRecipe_annBody i by simp
  from second [THEN conjunct2, THEN conjunct2, THEN mp, OF q]
  obtain x where f: "fst (getRecipe elevenId
          (getRecipeTimes 3 elevenId
             (annStore\<lparr>nextId := 12, recipes := recipes annStore @ [scones]\<rparr>))) =
       RecipeDoc (scones\<lparr>views := Some (IntN (int 3 + 1))\<rparr>) x"
    and x: "\<forall>u. x = Some u \<longrightarrow> u \<in> set (users annStore) \<and> u_id u = author scones"
      "x = None \<longrightarrow> author scones \<notin> set (map u_id (users annStore))"
    by (elim exE conjE) (rule that)
  from x a have "x = Some ann" by (cases x) simp_all
  with f have f': "fst (getRecipe elevenId
          (getRecipeTimes 3 elevenId
             (annStore\<lparr>nextId := 12, recipes := recipes annStore @ [scones]\<rparr>))) =
       RecipeDoc (scones\<lparr>views := Some (IntN 4)\<rparr>) (Some ann)"
    by simp
  show ?thesis
    by (intro conjI castObjectId_zeroId findById_annStore v n getRecipe_annStore(1) s'
        u [THEN conjunct1] u [THEN conjunct2] castObjectId_elevenId m createRecipe_annBody i f')
qed

lemma getRecipe_null_views:
  assumes "castObjectId rid = Some i" and "findById i (recipes st) = Some r"
    and "views r = None"
  shows "getRecipe rid st = (BadRequest StoreError, st)"
    and "incrementView rid st = (BadRequest StoreError, st)"
  using assms by (simp_all add: getRecipe_def incrementView_def incViews_def)

subsection \<open>The second view counter\<close>

lemma incrementView_found:
  assumes "castObjectId rid = Some i" and "findById i (recipes st) = Some r"
    and "views r = Some v" and "incNumber v = Some v'"
  shows "incrementView rid st =
           (ViewIncremented ''View incremented'' (numValue v'),
            st\<lparr>recipes := replaceById i (r\<lparr>views := Some v'\<rparr>) (recipes st)\<rparr>)"
  using assms by (simp add: incrementView_def incViews_found viewsRead_def)

lemma incrementView_store: "snd (incrementView rid st) = snd (getRecipe rid st)"
  by (auto simp: incrementView_def getRecipe_def incViews_def Let_def viewsRead_def
      split: option.splits)

lemma incrementView_status:
  "status (fst (incrementView rid st)) = status (fst (getRecipe rid st))"
  by (auto simp: incrementView_def getRecipe_def incViews_def Let_def viewsRead_def
      split: option.splits)

text \<open>
  C4 as stated does not hold: on a recipe whose views are \<open>2^53\<close>
  GET /recipes/view/:recipeId replies with \<open>2^53\<close>, the counter it found, and leaves the
  store as it was.
\<close>

theorem incrementView_big_counterexample:
  "castObjectId zeroId = Some 0 \<and>
   findById 0 (recipes bigViews) = Some (sample 0 0 (Some (DoubleN 9007199254740992))) \<and>
   incrementView zeroId bigViews =
     (ViewIncremented ''View incremented'' 9007199254740992, bigViews)"
proof -
  have "views (sample 0 0 (Some (DoubleN 9007199254740992))) = Some (DoubleN 9007199254740992)"
    by (simp add: sample_def)
  from incrementView_found [OF castObjectId_zeroId findById_bigViews this incNumber_bigViews]
  have "incrementView zeroId bigViews =
     (ViewIncremented ''View incremented'' (numValue (DoubleN 9007199254740992)), bigViews)"
    by (simp only: replace_bigViews)
  then show ?thesis using castObjectId_zeroId findById_bigViews by (simp add: numValue_def)
qed

text \<open>
  C4, amended. GET /recipes/view/:recipeId leaves the store exactly as
  GET /recipe/:recipeId does and has the same status; on an existing recipe whose views
  are a whole number \<open>k\<close> with \<open>-2^53 \<le> k < 2^53\<close> it stores \<open>k + 1\<close> and its reply holds
  the message and the number \<open>k + 1\<close> only; on an identity that resolves to no recipe it
  replies 404.
\<close>

theorem incrementView_like_getRecipe:
  "snd (incrementView rid st) = snd (getRecipe rid st) \<and>
   status (fst (incrementView rid st)) = status (fst (getRecipe rid st)) \<and>
   (castObjectId rid = Some i \<and> findById i (recipes st) = Some r \<and> views r = Some v \<and>
    numValue v = of_int k \<and> - (2 ^ 53) \<le> k \<and> k < 2 ^ 53 \<longrightarrow>
      (\<exists>v'. numValue v' = of_int k + 1 \<and>
            incrementView rid st =
              (ViewIncremented ''View incremented'' (of_int k + 1),
               st\<lparr>recipes := replaceById i (r\<lparr>views := Some v'\<rparr>) (recipes st)\<rparr>))) \<and>
   (castObjectId rid = Some i \<and> findById i (recipes st) = None \<longrightarrow>
      incrementView rid st = (NotFoundError ''Recipe not found'', st))"
proof (intro conjI impI)
  show "snd (incrementView rid st) = snd (getRecipe rid st)" by (rule incrementView_store)
  show "status (fst (incrementView rid st)) = status (fst (getRecipe rid st))"
    by (rule incrementView_status)
next
  assume a: "castObjectId rid = Some i \<and> findById i (recipes st) = Some r \<and> views r = Some v \<and>
    numValue v = of_int k \<and> - (2 ^ 53) \<le> k \<and> k < 2 ^ 53"
  then obtain v' where inc: "incNumber v = Some v'" and val: "numValue v' = of_int k + 1"
    using incNumber_whole [of v k] by blast
  from a have c: "castObjectId rid = Some i" and f: "findById i (recipes st) = Some r"
    and vr: "views r = Some v" by simp_all
  have "incrementView rid st =
           (ViewIncremented ''View incremented'' (numValue v'),
            st\<lparr>recipes := replaceById i (r\<lparr>views := Some v'\<rparr>) (recipes st)\<rparr>)"
    by (rule incrementView_found [OF c f vr inc])
  then show "\<exists>v'. numValue v' = of_int k + 1 \<and>
            incrementView rid st =
              (ViewIncremented ''View incremented'' (of_int k + 1),
               st\<lparr>recipes := replaceById i (r\<lparr>views := Some v'\<rparr>) (recipes st)\<rparr>)"
    using val by (intro exI [of _ v']) simp
next
  assume "castObjectId rid = Some i \<and> findById i (recipes st) = None"
  then show "incrementView rid st = (NotFoundError ''Recipe not found'', st)"
    by (simp add: incrementView_def incViews_missing)
qed

theorem incrementView_like_getRecipe_witness:
  "castObjectId zeroId = Some 0 \<and>
   findById 0 (recipes annStore) = Some (sample 0 10 (Some (IntN 41))) \<and>
   views (sample 0 10 (Some (IntN 41))) = Some (IntN 41) \<and>
   numValue (IntN 41) = of_int 41 \<and>
   incrementView zeroId annStore =
     (ViewIncremented ''View incremented'' 42,
      annStore\<lparr>recipes := [sample 0 10 (Some (IntN 42)), sample 1 7 (Some (IntN 0))]\<rparr>) \<and>
   snd (getRecipe zeroId annStore) =
     annStore\<lparr>recipes := [sample 0 10 (Some (IntN 42)), sample 1 7 (Some (IntN 0))]\<rparr> \<and>
   status (fst (getRecipe zeroId annStore)) = Some 200 \<and>
   castObjectId elevenId = Some 11 \<and> findById 11 (recipes annStore) = None \<and>
   incrementView elevenId annStore = (NotFoundError ''Recipe not found'', annStore)"
proof -
  note found = incrementView_like_getRecipe [of zeroId annStore 0
      "sample 0 10 (Some (IntN 41))" "IntN 41" 41]
  note missing = incrementView_like_getRecipe [of elevenId annStore 11]
  have v: "views (sample 0 10 (Some (IntN 41))) = Some (IntN 41)"
    and n: "numValue (IntN 41) = of_int 41"
    by (simp_all add: sample_def numValue_def)
  have p: "castObjectId zeroId = Some 0 \<and>
      findById 0 (recipes annStore) = Some (sample 0 10 (Some (IntN 41))) \<and>
      views (sample 0 10 (Some (IntN 41))) = Some (IntN 41) \<and>
      numValue (IntN 41) = of_int 41 \<and> - (2 ^ 53) \<le> (41::int) \<and> (41::int) < 2 ^ 53"
    by (simp add: castObjectId_zeroId findById_annStore v n)
  from found [THEN conjunct2, THEN conjunct2, THEN conjunct1, THEN mp, OF p]
  obtain v' where r: "incrementView zeroId annStore =
       (ViewIncremented ''View incremented'' (of_int 41 + 1),
        annStore\<lparr>recipes := replaceById 0 ((sample 0 10 (Some (IntN 41)))\<lparr>views := Some v'\<rparr>)
          (recipes annStore)\<rparr>)"
    by (elim exE conjE) (rule that)
  from found have "snd (incrementView zeroId annStore) = snd (getRecipe zeroId annStore)"
    and t: "status (fst (incrementView zeroId annStore)) = status (fst (getRecipe zeroId annStore))"
    by simp_all
  then have s: "snd (incrementView zeroId annStore) =
      annStore\<lparr>recipes := [sample 0 10 (Some (IntN 42)), sample 1 7 (Some (IntN 0))]\<rparr>"
    by (simp add: getRecipe_annStore(1))
  from r have "fst (incrementView zeroId annStore) = ViewIncremented ''View incremented'' 42"
    by simp
  with s have a: "incrementView zeroId annStore =
     (ViewIncremented ''View incremented'' 42,
      annStore\<lparr>recipes := [sample 0 10 (Some (IntN 42)), sample 1 7 (Some (IntN 0))]\<rparr>)"
    by (simp add: prod_eq_iff)
  from t a have t': "status (fst (getRecipe zeroId annStore)) = Some 200" by simp
  from missing [THEN conjunct2, THEN conjunct2, THEN conjunct2, THEN mp,
      OF conjI [OF castObjectId_elevenId findById_annStore(3)]]
  have c: "incrementView elevenId annStore = (NotFoundError ''Recipe not found'', annStore)"
    by simp
  show ?thesis
    by (intro conjI castObjectId_zeroId findById_annStore v n a t' castObjectId_elevenId c)
      (simp add: getRecipe_annStore(1))
qed


subsection \<open>Deleting\<close>

lemma archiveRecipe_missing:
  assumes "castObjectId rid = Some i" and "findById i (recipes st) = None"
  shows "archiveRecipe now rid st = Inr st"
  using assms by (simp add: archiveRecipe_def)

text \<open>
  C2. For a well-formed identity that resolves to no recipe, DELETE
  /delete-recipe/:recipeId writes nothing to the archive, replies 404 and leaves the
  store as it was.
\<close>

theorem deleteRecipe_missing:
  assumes "castObjectId rid = Some i" and "findById i (recipes st) = None"
  shows "archiveRecipe now rid st = Inr st \<and>
         deleteRecipe now rid st = (NotFoundMessage ''Recipe not found'', st) \<and>
         status (fst (deleteRecipe now rid st)) = Some 404"
  using assms by (simp add: deleteRecipe_def archiveRecipe_missing)

theorem deleteRecipe_missing_witness:
  "castObjectId oneId = Some 1 \<and> findById 1 (recipes breadStore) = None \<and>
   deleteRecipe 9 oneId breadStore = (NotFoundMessage ''Recipe not found'', breadStore)"
  using deleteRecipe_missing [OF castObjectId_oneId findById_breadStore(2), of 9]
    castObjectId_oneId findById_breadStore(2)
  by simp











subsection \<open>Views of one user\<close>

lemma readable_whole: "numValue v = of_int k \<Longrightarrow> \<bar>k\<bar> \<le> 2 ^ 53 \<Longrightarrow> readable v"
proof (cases v)
  case (IntN i)
  assume "numValue v = of_int k" and "\<bar>k\<bar> \<le> 2 ^ 53"
  then show ?thesis using IntN by (simp add: readable_def numValue_def)
next
  case (DoubleN x)
  assume "numValue v = of_int k" and k: "\<bar>k\<bar> \<le> 2 ^ 53"
  then have "x = of_int k" using DoubleN by (simp add: numValue_def)
  then show ?thesis using DoubleN toDouble_int [OF k] by (simp add: readable_def)
qed

lemma addend_whole:
  assumes "(case viewsRead r of None \<Rightarrow> 0 | Some x \<Rightarrow> x) = of_int k" and "\<bar>k\<bar> \<le> 2 ^ 53"
  shows "addend r = Some (of_int k)"
proof (cases "views r")
  case None
  then show ?thesis using assms(1) by (simp add: addend_def viewsRead_def)
next
  case (Some v)
  then have n: "numValue v = of_int k" using assms(1) by (simp add: viewsRead_def)
  then show ?thesis using Some readable_whole [OF n assms(2)] by (simp add: addend_def)
qed

text \<open>
  The additions of the reduce are exact as long as the absolute values of the views add
  up to \<open>2^53\<close> at most.
\<close>

lemma reduceViews_ints:
  assumes "map (\<lambda>r. case viewsRead r of None \<Rightarrow> 0 | Some x \<Rightarrow> x) rs = map of_int ks"
    and "\<bar>s\<bar> + sum_list (map abs ks) \<le> 2 ^ 53"
  shows "reduceViews (of_int s) rs = Some (of_int (s + sum_list ks))"
  using assms
proof (induction rs arbitrary: s ks)
  case Nil
  then show ?case by simp
next
  case (Cons r rs)
  then obtain k ks' where ks: "ks = k # ks'" by (cases ks) simp_all
  have k: "(case viewsRead r of None \<Rightarrow> 0 | Some x \<Rightarrow> x) = of_int k"
    and rest: "map (\<lambda>r. case viewsRead r of None \<Rightarrow> 0 | Some x \<Rightarrow> x) rs = map of_int ks'"
    using Cons.prems(1) ks by simp_all
  have b: "\<bar>s\<bar> + \<bar>k\<bar> + sum_list (map abs ks') \<le> 2 ^ 53"
    using Cons.prems(2) ks by simp
  have nn: "0 \<le> sum_list (map abs ks')" by (rule sum_list_nonneg) auto
  have "\<bar>k\<bar> \<le> 2 ^ 53" using b nn by linarith
  then have a: "addend r = Some (of_int k)" by (rule addend_whole [OF k])
  have "\<bar>s + k\<bar> \<le> 2 ^ 53" using b nn by linarith
  then have "toDouble (of_int (s + k)) = Some (of_int (s + k))" by (rule toDouble_int)
  then have t: "toDouble (of_int s + of_int k) = Some (of_int (s + k))" by simp
  have "\<bar>s + k\<bar> + sum_list (map abs ks') \<le> 2 ^ 53" using b by linarith
  then have "reduceViews (of_int (s + k)) rs = Some (of_int (s + k + sum_list ks'))"
    by (rule Cons.IH [OF rest])
  then show ?case using a t ks by (simp add: add.assoc)
qed

lemma filter_bigViews:
  "filter (\<lambda>r. author r = 0) (recipes bigViews) =
     [sample 0 0 (Some (DoubleN 9007199254740992)), sample 1 0 (Some (IntN 1))]"
  by (simp add: bigViews_def sample_def)

lemma toDouble_two53: "toDouble 9007199254740992 = Some 9007199254740992"
proof -
  have "toDouble (of_int 9007199254740992) = Some (of_int 9007199254740992)"
    by (rule toDouble_int) simp
  then show ?thesis by simp
qed

lemma reduceViews_bigViews:
  "reduceViews 0 [sample 0 0 (Some (DoubleN 9007199254740992)), sample 1 0 (Some (IntN 1))] =
     Some 9007199254740992"
proof -
  have a: "addend (sample 0 0 (Some (DoubleN 9007199254740992))) = Some 9007199254740992"
    by (simp add: addend_def sample_def readable_def numValue_def toDouble_two53)
  have b: "addend (sample 1 0 (Some (IntN 1))) = Some 1"
    by (simp add: addend_def sample_def readable_def numValue_def)
  have c: "toDouble (0 + 9007199254740992) = Some 9007199254740992"
    using toDouble_two53 by simp
  have d: "toDouble (9007199254740992 + 1) = Some 9007199254740992"
    using toDouble_big by simp
  show ?thesis
    by (simp only: reduceViews.simps a b c d option.case)
qed

text \<open>
  C8 as stated does not hold: the handler adds doubles. For two recipes of one user with
  views \<open>2^53\<close> and 1 the reply is \<open>2^53\<close>, which is not their sum.
\<close>

theorem totalViewsByUser_big_counterexample:
  "castObjectId zeroId = Some 0 \<and>
   map viewsRead (filter (\<lambda>r. author r = 0) (recipes bigViews)) =
     [Some 9007199254740992, Some 1] \<and>
   totalViewsByUser zeroId bigViews = (TotalViews 9007199254740992, bigViews)"
proof -
  have "map viewsRead (filter (\<lambda>r. author r = 0) (recipes bigViews)) =
     [Some 9007199254740992, Some 1]"
    by (simp add: filter_bigViews) (simp add: viewsRead_def sample_def numValue_def)
  moreover have "totalViewsByUser zeroId bigViews = (TotalViews 9007199254740992, bigViews)"
    by (simp only: totalViewsByUser_def castObjectId_zeroId recipesOf_def filter_bigViews
        reduceViews_bigViews option.case)
  ultimately show ?thesis using castObjectId_zeroId by simp
qed

text \<open>
  C8, amended. If the views of the recipes whose author is the user are the whole
  numbers \<open>ks\<close> (a null views counting as 0) and their absolute values add up to \<open>2^53\<close>
  at most, then GET /user/:userId/views replies with their sum, folded over the loaded
  recipes; views 3, 5 and 0 give 8.
\<close>

theorem totalViewsByUser_sum:
  assumes "castObjectId uid = Some u"
    and "map (\<lambda>r. case viewsRead r of None \<Rightarrow> 0 | Some x \<Rightarrow> x)
           (filter (\<lambda>r. author r = u) (recipes st)) = map of_int ks"
    and "sum_list (map abs ks) \<le> 2 ^ 53"
  shows "totalViewsByUser uid st = (TotalViews (of_int (sum_list ks)), st)"
proof -
  have "reduceViews (of_int 0) (filter (\<lambda>r. author r = u) (recipes st)) =
          Some (of_int (0 + sum_list ks))"
    using assms(3) by (intro reduceViews_ints [OF assms(2)]) simp
  then show ?thesis using assms(1) by (simp add: totalViewsByUser_def recipesOf_def)
qed

theorem totalViewsByUser_sum_witness:
  "castObjectId zeroId = Some 0 \<and>
   map (\<lambda>r. case viewsRead r of None \<Rightarrow> 0 | Some x \<Rightarrow> x)
     (filter (\<lambda>r. author r = 0) (recipes viewsStore)) = map of_int [3, 5, 0] \<and>
   sum_list (map abs [3, 5, 0 :: int]) \<le> 2 ^ 53 \<and>
   totalViewsByUser zeroId viewsStore = (TotalViews 8, viewsStore)"
proof -
  have m: "map (\<lambda>r. case viewsRead r of None \<Rightarrow> 0 | Some x \<Rightarrow> x)
     (filter (\<lambda>r. author r = 0) (recipes viewsStore)) = map of_int [3, 5, 0]"
    by (simp add: viewsStore_def sample_def viewsRead_def numValue_def)
  have s: "sum_list (map abs [3, 5, 0 :: int]) \<le> 2 ^ 53" by simp
  from totalViewsByUser_sum [OF castObjectId_zeroId m s]
  have "totalViewsByUser zeroId viewsStore = (TotalViews 8, viewsStore)" by simp
  then show ?thesis using castObjectId_zeroId m s by simp
qed

text \<open>
  C10. For a user without recipes, whether or not the identity belongs to a user,
  GET /user/:userId/views replies 200 with totalViews 0, while
  GET /user/:userId/highestviews replies 404.
\<close>

theorem totalViewsByUser_empty:
  assumes "castObjectId uid = Some u" and "filter (\<lambda>r. author r = u) (recipes st) = []"
  shows "totalViewsByUser uid st = (TotalViews 0, st) \<and>
         status (fst (totalViewsByUser uid st)) = Some 200 \<and>
         mostViewedByUser uid st = (NotFoundMessage ''No recipes found'', st) \<and>
         status (fst (mostViewedByUser uid st)) = Some 404"
  using assms
  by (simp add: totalViewsByUser_def mostViewedByUser_def recipesOf_def)

theorem totalViewsByUser_empty_witness:
  "castObjectId oneId = Some 1 \<and> filter (\<lambda>r. author r = 1) (recipes breadStore) = [] \<and>
   findUser 1 (users breadStore) = None \<and>
   totalViewsByUser oneId breadStore = (TotalViews 0, breadStore) \<and>
   mostViewedByUser oneId breadStore = (NotFoundMessage ''No recipes found'', breadStore)"
proof -
  have e: "filter (\<lambda>r. author r = 1) (recipes breadStore) = []"
    by (simp add: breadStore_def bread_def)
  from totalViewsByUser_empty [OF castObjectId_oneId e] castObjectId_oneId e
  show ?thesis by (simp add: findUser_def breadStore_def)
qed


subsection \<open>Updating\<close>

lemma described_lookup:
  assumes "describedBody b" and "map_of b k = Some v"
  shows "describedValue k v"
proof -
  have "(k, v) \<in> set b" using assms(2) by (rule map_of_SomeD)
  then show ?thesis using assms(1) by (auto simp: describedBody_def list_all_iff)
qed

lemma isStr_JStr: "isStr v \<Longrightarrow> v = JStr (strOf v)"
  by (cases v) (simp_all add: isStr_def)

lemma map_JStr_strOf: "list_all isStr xs \<Longrightarrow> map (JStr \<circ> strOf) xs = xs"
  by (induction xs) (simp_all add: isStr_JStr [symmetric])

lemma applyUpdate_id: "r_id (applyUpdate b r) = r_id r"
  by (simp add: applyUpdate_def)

lemma applyUpdate_title:
  assumes "describedBody b"
  shows "case map_of b ''title'' of None \<Rightarrow> title (applyUpdate b r) = title r
         | Some v \<Rightarrow> v = JStr (title (applyUpdate b r))"
proof (cases "map_of b ''title''")
  case None
  then show ?thesis by (simp add: applyUpdate_def)
next
  case (Some v)
  from described_lookup [OF assms Some] have "isStr v" by (simp add: describedValue_def)
  then obtain t where "v = JStr t" using isStr_JStr by blast
  then show ?thesis using Some by (simp add: applyUpdate_def)
qed

lemma applyUpdate_instructions:
  assumes "describedBody b"
  shows "case map_of b ''instructions'' of None \<Rightarrow> instructions (applyUpdate b r) = instructions r
         | Some v \<Rightarrow> v = JStr (instructions (applyUpdate b r))"
proof (cases "map_of b ''instructions''")
  case None
  then show ?thesis by (simp add: applyUpdate_def)
next
  case (Some v)
  from described_lookup [OF assms Some] have "isStr v" by (simp add: describedValue_def)
  then obtain t where "v = JStr t" using isStr_JStr by blast
  then show ?thesis using Some by (simp add: applyUpdate_def)
qed

lemma applyUpdate_description:
  assumes "describedBody b"
  shows "case map_of b ''description'' of None \<Rightarrow> description (applyUpdate b r) = description r
         | Some v \<Rightarrow> v = (case description (applyUpdate b r) of None \<Rightarrow> JNull | Some d \<Rightarrow> JStr d)"
proof (cases "map_of b ''description''")
  case None
  then show ?thesis by (simp add: applyUpdate_def)
next
  case (Some v)
  from described_lookup [OF assms Some] have "isStr v \<or> v = JNull"
    by (simp add: describedValue_def)
  then consider t where "v = JStr t" | "v = JNull" using isStr_JStr by blast
  then show ?thesis using Some by cases (simp_all add: applyUpdate_def)
qed

lemma applyUpdate_ingredients:
  assumes "describedBody b"
  shows "case map_of b ''ingredients'' of None \<Rightarrow> ingredients (applyUpdate b r) = ingredients r
         | Some v \<Rightarrow> v = JArr (map JStr (ingredients (applyUpdate b r)))"
proof (cases "map_of b ''ingredients''")
  case None
  then show ?thesis by (simp add: applyUpdate_def)
next
  case (Some v)
  from described_lookup [OF assms Some]
  obtain xs where "v = JArr xs" and "list_all isStr xs"
    by (cases v) (simp_all add: describedValue_def)
  then show ?thesis using Some by (simp add: applyUpdate_def map_JStr_strOf)
qed

lemma applyUpdate_author:
  assumes "describedBody b" and "\<not> castFails b"
  shows "case map_of b ''author'' of None \<Rightarrow> author (applyUpdate b r) = author r
         | Some v \<Rightarrow> \<exists>s. v = JStr s \<and> castObjectId s = Some (author (applyUpdate b r))"
proof (cases "map_of b ''author''")
  case None
  then show ?thesis by (simp add: applyUpdate_def)
next
  case (Some v)
  from described_lookup [OF assms(1) Some] have "isStr v" by (simp add: describedValue_def)
  then obtain s where v: "v = JStr s" using isStr_JStr by blast
  then have "castObjectId s \<noteq> None" using assms(2) Some by (simp add: castFails_def)
  then obtain a where "castObjectId s = Some a" by blast
  then show ?thesis using Some v by (simp add: applyUpdate_def)
qed

lemma applyUpdate_views:
  assumes "describedBody b"
  shows "case map_of b ''views'' of None \<Rightarrow> views (applyUpdate b r) = views r
         | Some v \<Rightarrow>
             (v = JNull \<and> views (applyUpdate b r) = None) \<or>
             (\<exists>q x. v = JNum q \<and> toDouble q = Some x \<and> views (applyUpdate b r) = Some (toBson x))"
proof (cases "map_of b ''views''")
  case None
  then show ?thesis by (simp add: applyUpdate_def)
next
  case (Some v)
  from described_lookup [OF assms Some]
  consider "v = JNull" | q x where "v = JNum q" and "toDouble q = Some x"
    by (cases v) (auto simp: describedValue_def)
  then show ?thesis using Some by cases (simp_all add: applyUpdate_def)
qed

lemma applyUpdate_createdAt:
  assumes "describedBody b" and "\<not> castFails b"
  shows "case map_of b ''createdAt'' of None \<Rightarrow> createdAt (applyUpdate b r) = createdAt r
         | Some v \<Rightarrow>
             (v = JNull \<and> createdAt (applyUpdate b r) = None) \<or>
             (\<exists>q d. v = JNum q \<and> castDate q = Some d \<and> createdAt (applyUpdate b r) = Some d)"
proof (cases "map_of b ''createdAt''")
  case None
  then show ?thesis by (simp add: applyUpdate_def)
next
  case (Some v)
  from described_lookup [OF assms(1) Some]
  consider "v = JNull" | q where "v = JNum q"
    by (cases v) (auto simp: describedValue_def)
  then show ?thesis
  proof cases
    case 1
    then show ?thesis using Some by (simp add: applyUpdate_def)
  next
    case 2
    then have "castDate q \<noteq> None" using assms(2) Some by (simp add: castFails_def)
    then obtain d where "castDate q = Some d" by blast
    then show ?thesis using Some 2 by (simp add: applyUpdate_def)
  qed
qed

lemma updateRecipe_rejected:
  assumes "castObjectId rid = Some i" and "describedBody b" and "castFails b \<or> \<not> updateValid b"
  shows "updateRecipe rid b st =
           (BadRequest (if castFails b then CastError else ValidationError), st)"
  using assms by (auto simp: updateRecipe_def)

lemma updateRecipe_accepted:
  assumes "castObjectId rid = Some i" and "describedBody b" and "\<not> castFails b"
    and "updateValid b"
  shows "updateRecipe rid b st =
           (case findById i (recipes st) of
              None \<Rightarrow> (NotFoundMessage ''Recipe not found'', st)
            | Some r \<Rightarrow>
                (RecipeUpdated ''Recipe updated successfully!'' (applyUpdate b r),
                 st\<lparr>recipes := replaceById i (applyUpdate b r) (recipes st)\<rparr>))"
  using assms by (simp add: updateRecipe_def Let_def split: option.splits)

text \<open>
  C5 as stated does not hold: a body whose title has two characters is refused by the
  validators, so PUT /update-recipe/:recipeId replies 400, not 404, on an identity that
  resolves to no recipe, and on an existing recipe it overwrites nothing.
\<close>

theorem updateRecipe_rejects_counterexample:
  "castObjectId zeroId = Some 0 \<and>
   findById 0 (recipes emptyStore) = None \<and>
   updateRecipe zeroId [(''title'', JStr ''ab'')] emptyStore =
     (BadRequest ValidationError, emptyStore) \<and>
   findById 0 (recipes breadStore) = Some bread \<and>
   updateRecipe zeroId [(''title'', JStr ''ab'')] breadStore =
     (BadRequest ValidationError, breadStore)"
  by (simp add: castObjectId_zeroId findById_breadStore findById_emptyStore updateRecipe_def
      describedBody_def describedValue_def isStr_def castFails_def updateValid_def titleOk_def)

text \<open>
  C5, amended. Take a well-formed identity and a body of the described kind: distinct
  keys among the paths of the schema, each with a value of the type of its path. If the
  body passes the casts and the validators, then on an identity that resolves to no
  recipe the reply is 404 and nothing changes, and on an existing recipe the returned
  and stored document has, in every path present in the body, the value sent (a number
  as the double it denotes, a date as whole milliseconds), and in every other path,
  identity included, the old value. A body that fails a cast or a validator gets 400 and
  changes nothing, whether or not the identity resolves.
\<close>

theorem updateRecipe_partial:
  assumes "castObjectId rid = Some i" and "describedBody b"
  shows "(\<not> castFails b \<and> updateValid b \<and> findById i (recipes st) = None \<longrightarrow>
            updateRecipe rid b st = (NotFoundMessage ''Recipe not found'', st))
       \<and> (\<not> castFails b \<and> updateValid b \<and> findById i (recipes st) = Some r \<longrightarrow>
            (\<exists>r'. updateRecipe rid b st =
                     (RecipeUpdated ''Recipe updated successfully!'' r',
                      st\<lparr>recipes := replaceById i r' (recipes st)\<rparr>) \<and>
                   r_id r' = r_id r \<and>
                   (case map_of b ''title'' of None \<Rightarrow> title r' = title r
                    | Some v \<Rightarrow> v = JStr (title r')) \<and>
                   (case map_of b ''description'' of None \<Rightarrow> description r' = description r
                    | Some v \<Rightarrow> v = (case description r' of None \<Rightarrow> JNull | Some d \<Rightarrow> JStr d)) \<and>
                   (case map_of b ''ingredients'' of None \<Rightarrow> ingredients r' = ingredients r
                    | Some v \<Rightarrow> v = JArr (map JStr (ingredients r'))) \<and>
                   (case map_of b ''instructions'' of None \<Rightarrow> instructions r' = instructions r
                    | Some v \<Rightarrow> v = JStr (instructions r')) \<and>
                   (case map_of b ''author'' of None \<Rightarrow> author r' = author r
                    | Some v \<Rightarrow> \<exists>s. v = JStr s \<and> castObjectId s = Some (author r')) \<and>
                   (case map_of b ''views'' of None \<Rightarrow> views r' = views r
                    | Some v \<Rightarrow>
                        (v = JNull \<and> views r' = None) \<or>
                        (\<exists>q x. v = JNum q \<and> toDouble q = Some x \<and> views r' = Some (toBson x))) \<and>
                   (case map_of b ''createdAt'' of None \<Rightarrow> createdAt r' = createdAt r
                    | Some v \<Rightarrow>
                        (v = JNull \<and> createdAt r' = None) \<or>
                        (\<exists>q d. v = JNum q \<and> castDate q = Some d \<and> createdAt r' = Some d))))
       \<and> (castFails b \<or> \<not> updateValid b \<longrightarrow>
            status (fst (updateRecipe rid b st)) = Some 400 \<and> snd (updateRecipe rid b st) = st)"
proof (intro conjI impI)
  assume "\<not> castFails b \<and> updateValid b \<and> findById i (recipes st) = None"
  then show "updateRecipe rid b st = (NotFoundMessage ''Recipe not found'', st)"
    using updateRecipe_accepted [OF assms, of st] by simp
next
  assume a: "\<not> castFails b \<and> updateValid b \<and> findById i (recipes st) = Some r"
  then have c: "\<not> castFails b" by simp
  from a have "updateRecipe rid b st =
      (RecipeUpdated ''Recipe updated successfully!'' (applyUpdate b r),
       st\<lparr>recipes := replaceById i (applyUpdate b r) (recipes st)\<rparr>)"
    using updateRecipe_accepted [OF assms, of st] by simp
  then show "\<exists>r'. updateRecipe rid b st =
                     (RecipeUpdated ''Recipe updated successfully!'' r',
                      st\<lparr>recipes := replaceById i r' (recipes st)\<rparr>) \<and>
                   r_id r' = r_id r \<and>
                   (case map_of b ''title'' of None \<Rightarrow> title r' = title r
                    | Some v \<Rightarrow> v = JStr (title r')) \<and>
                   (case map_of b ''description'' of None \<Rightarrow> description r' = description r
                    | Some v \<Rightarrow> v = (case description r' of None \<Rightarrow> JNull | Some d \<Rightarrow> JStr d)) \<and>
                   (case map_of b ''ingredients'' of None \<Rightarrow> ingredients r' = ingredients r
                    | Some v \<Rightarrow> v = JArr (map JStr (ingredients r'))) \<and>
                   (case map_of b ''instructions'' of None \<Rightarrow> instructions r' = instructions r
                    | Some v \<Rightarrow> v = JStr (instructions r')) \<and>
                   (case map_of b ''author'' of None \<Rightarrow> author r' = author r
                    | Some v \<Rightarrow> \<exists>s. v = JStr s \<and> castObjectId s = Some (author r')) \<and>
                   (case map_of b ''views'' of None \<Rightarrow> views r' = views r
                    | Some v \<Rightarrow>
                        (v = JNull \<and> views r' = None) \<or>
                        (\<exists>q x. v = JNum q \<and> toDouble q = Some x \<and> views r' = Some (toBson x))) \<and>
                   (case map_of b ''createdAt'' of None \<Rightarrow> createdAt r' = createdAt r
                    | Some v \<Rightarrow>
                        (v = JNull \<and> createdAt r' = None) \<or>
                        (\<exists>q d. v = JNum q \<and> castDate q = Some d \<and> createdAt r' = Some d))"
    by (intro exI [of _ "applyUpdate b r"] conjI applyUpdate_id applyUpdate_title
        applyUpdate_description applyUpdate_ingredients applyUpdate_instructions
        applyUpdate_author applyUpdate_views applyUpdate_createdAt assms(2) c)
next
  assume "castFails b \<or> \<not> updateValid b"
  then show "status (fst (updateRecipe rid b st)) = Some 400" and "snd (updateRecipe rid b st) = st"
    using updateRecipe_rejected [OF assms, of st] by simp_all
qed


lemma ryeBody_ok: "describedBody ryeBody" "\<not> castFails ryeBody" "updateValid ryeBody"
  by (simp_all add: ryeBody_def describedBody_def describedValue_def isStr_def castFails_def
      updateValid_def titleOk_def toDouble_big)

lemma castDate_late: "castDate 8640000000000001 = None"
proof -
  have "toDouble (of_int 8640000000000001) = Some (of_int 8640000000000001)"
    by (rule toDouble_int) simp
  then have "toDouble 8640000000000001 = Some 8640000000000001" by simp
  then show ?thesis by (simp add: castDate_def)
qed

lemma lateBody_bad: "describedBody lateBody" "castFails lateBody"
  by (simp_all add: lateBody_def describedBody_def describedValue_def castFails_def
      castDate_late)

lemma toBson_two53: "toBson 9007199254740992 = DoubleN 9007199254740992"
  by (simp add: toBson_def)

theorem updateRecipe_partial_witness:
  "castObjectId zeroId = Some 0 \<and> castObjectId oneId = Some 1 \<and>
   describedBody ryeBody \<and> \<not> castFails ryeBody \<and> updateValid ryeBody \<and>
   findById 1 (recipes breadStore) = None \<and>
   updateRecipe oneId ryeBody breadStore = (NotFoundMessage ''Recipe not found'', breadStore) \<and>
   findById 0 (recipes breadStore) = Some bread \<and>
   updateRecipe zeroId ryeBody breadStore =
     (RecipeUpdated ''Recipe updated successfully!''
        (bread\<lparr>title := ''Rye bread'', views := Some (DoubleN 9007199254740992)\<rparr>),
      breadStore\<lparr>recipes :=
        [bread\<lparr>title := ''Rye bread'', views := Some (DoubleN 9007199254740992)\<rparr>]\<rparr>) \<and>
   describedBody lateBody \<and> castFails lateBody \<and>
   status (fst (updateRecipe zeroId lateBody breadStore)) = Some 400 \<and>
   snd (updateRecipe zeroId lateBody breadStore) = breadStore"
proof -
  note missing = updateRecipe_partial [OF castObjectId_oneId ryeBody_ok(1), of breadStore]
  note found = updateRecipe_partial [OF castObjectId_zeroId ryeBody_ok(1), of breadStore bread]
  note bad = updateRecipe_partial [OF castObjectId_zeroId lateBody_bad(1), of breadStore]
  have a: "updateRecipe oneId ryeBody breadStore =
     (NotFoundMessage ''Recipe not found'', breadStore)"
    using missing [THEN conjunct1] ryeBody_ok findById_breadStore(2) by simp
  have p: "\<not> castFails ryeBody \<and> updateValid ryeBody \<and>
      findById 0 (recipes breadStore) = Some bread"
    using ryeBody_ok findById_breadStore(1) by simp
  from found [THEN conjunct2, THEN conjunct1, THEN mp, OF p]
  obtain r' where u: "updateRecipe zeroId ryeBody breadStore =
        (RecipeUpdated ''Recipe updated successfully!'' r',
         breadStore\<lparr>recipes := replaceById 0 r' (recipes breadStore)\<rparr>)"
    and f: "r_id r' = r_id bread"
      "case map_of ryeBody ''title'' of None \<Rightarrow> title r' = title bread
       | Some v \<Rightarrow> v = JStr (title r')"
      "case map_of ryeBody ''description'' of None \<Rightarrow> description r' = description bread
       | Some v \<Rightarrow> v = (case description r' of None \<Rightarrow> JNull | Some d \<Rightarrow> JStr d)"
      "case map_of ryeBody ''ingredients'' of None \<Rightarrow> ingredients r' = ingredients bread
       | Some v \<Rightarrow> v = JArr (map JStr (ingredients r'))"
      "case map_of ryeBody ''instructions'' of None \<Rightarrow> instructions r' = instructions bread
       | Some v \<Rightarrow> v = JStr (instructions r')"
      "case map_of ryeBody ''author'' of None \<Rightarrow> author r' = author bread
       | Some v \<Rightarrow> \<exists>s. v = JStr s \<and> castObjectId s = Some (author r')"
      "case map_of ryeBody ''views'' of None \<Rightarrow> views r' = views bread
       | Some v \<Rightarrow>
           (v = JNull \<and> views r' = None) \<or>
           (\<exists>q x. v = JNum q \<and> toDouble q = Some x \<and> views r' = Some (toBson x))"
      "case map_of ryeBody ''createdAt'' of None \<Rightarrow> createdAt r' = createdAt bread
       | Some v \<Rightarrow>
           (v = JNull \<and> createdAt r' = None) \<or>
           (\<exists>q d. v = JNum q \<and> castDate q = Some d \<and> createdAt r' = Some d)"
    by (elim exE conjE) (rule that)
  from f(7) have "views r' = Some (toBson 9007199254740992)"
    by (simp add: ryeBody_def toDouble_big)
  then have v: "views r' = Some (DoubleN 9007199254740992)" by (simp only: toBson_two53)
  have r': "r' = bread\<lparr>title := ''Rye bread'', views := Some (DoubleN 9007199254740992)\<rparr>"
    using f(1-6,8) v by (intro recipe.equality) (simp_all add: ryeBody_def)
  have b: "updateRecipe zeroId ryeBody breadStore =
     (RecipeUpdated ''Recipe updated successfully!''
        (bread\<lparr>title := ''Rye bread'', views := Some (DoubleN 9007199254740992)\<rparr>),
      breadStore\<lparr>recipes :=
        [bread\<lparr>title := ''Rye bread'', views := Some (DoubleN 9007199254740992)\<rparr>]\<rparr>)"
    using u unfolding r' by (simp add: breadStore_def bread_def)
  have c: "status (fst (updateRecipe zeroId lateBody breadStore)) = Some 400 \<and>
      snd (updateRecipe zeroId lateBody breadStore) = breadStore"
    using bad [THEN conjunct2, THEN conjunct2] lateBody_bad(2) by simp
  show ?thesis
    by (intro conjI castObjectId_zeroId castObjectId_oneId ryeBody_ok findById_breadStore a b
        lateBody_bad c [THEN conjunct1] c [THEN conjunct2])
qed


text \<open>The store of the large counter is the result of an update.\<close>

lemma bigViews_reached:
  "updateRecipe zeroId [(''views'', JNum 9007199254740992)]
     (bigViews\<lparr>recipes := [sample 0 0 (Some (IntN 0)), sample 1 0 (Some (IntN 1))]\<rparr>) =
   (RecipeUpdated ''Recipe updated successfully!'' (sample 0 0 (Some (DoubleN 9007199254740992))),
    bigViews)"
proof -
  have d: "describedBody [(''views'', JNum 9007199254740992)]"
    and c: "\<not> castFails [(''views'', JNum 9007199254740992)]"
    and v: "updateValid [(''views'', JNum 9007199254740992)]"
    by (simp_all add: describedBody_def describedValue_def castFails_def updateValid_def
        toDouble_two53)
  have f: "findById 0 (recipes (bigViews\<lparr>recipes :=
      [sample 0 0 (Some (IntN 0)), sample 1 0 (Some (IntN 1))]\<rparr>)) = Some (sample 0 0 (Some (IntN 0)))"
    by (simp add: findById_def sample_def)
  have a: "applyUpdate [(''views'', JNum 9007199254740992)] (sample 0 0 (Some (IntN 0))) =
      sample 0 0 (Some (DoubleN 9007199254740992))"
    by (simp add: applyUpdate_def toDouble_two53 toBson_two53 sample_def bread_def)
  show ?thesis
    unfolding updateRecipe_accepted [OF castObjectId_zeroId d c v] f
    by (simp add: bigViews_def sample_def a [unfolded sample_def])
qed

subsection \<open>The title filter\<close>

lemma dot_metachar: "CHR 0x2E \<in> set metachars"
  by (simp add: metachars_def)

lemma parsePattern_literal:
  "\<forall>c \<in> set f. c \<notin> set metachars \<Longrightarrow> parsePattern f = Some (map (\<lambda>c. One (Lit c)) f)"
  using dot_metachar by (induction f) auto

lemma matchHere_literal:
  "matchHere True (map (\<lambda>c. One (Lit c)) f) s = prefix (map lower f) (map lower s)"
proof (induction f arbitrary: s)
  case Nil
  then show ?case by simp
next
  case (Cons c f)
  then show ?case by (cases s) auto
qed

lemma regexTest_literal:
  "regexTest True (map (\<lambda>c. One (Lit c)) f) s = containsIgnoringCase f s"
  unfolding containsIgnoringCase_def
proof (induction s)
  case Nil
  then show ?case by (simp add: matchHere_literal)
next
  case (Cons a s)
  then show ?case by (simp add: matchHere_literal sublist_Cons_right)
qed

lemma populateSummary_fst: "fst (populateSummary us r) = r"
  by (simp add: populateSummary_def)

lemma populateSummary_None:
  "snd (populateSummary us r) = None \<longleftrightarrow> author r \<notin> set (map u_id us)"
  by (simp add: populateSummary_def findUser_None)

lemma populateSummary_Some:
  assumes "snd (populateSummary us r) = Some s"
  shows "\<exists>u \<in> set us. u_id u = author r \<and>
           s = \<lparr>as_id = u_id u, as_name = name u, as_email = email u\<rparr>"
proof -
  from assms obtain u where u: "findUser (author r) us = Some u"
    and s: "s = \<lparr>as_id = u_id u, as_name = name u, as_email = email u\<rparr>"
    by (auto simp: populateSummary_def)
  from findUser_Some [OF u] s show ?thesis by blast
qed

text \<open>
  C6 as stated does not hold: the filter is run as a regular expression, so the filter
  made of one dot selects a recipe whose title contains no dot.
\<close>

theorem listRecipes_regex_counterexample:
  "listRecipes (Some ''.'') breadStore = (RecipeList [(bread, None)], breadStore) \<and>
   \<not> containsIgnoringCase ''.'' (title bread)"
  by code_simp

text \<open>
  C6, amended. For a filter without regular-expression metacharacters, GET /recipes
  returns exactly the recipes whose title contains the filter as a substring, letter case
  aside, in collection order; without a filter it returns all recipes. Each recipe comes
  with an author entry: null exactly when no user has the identity its author names, and
  otherwise the identity, name and email of a user with that identity.
\<close>

theorem listRecipes_literal_filter:
  "((\<forall>c \<in> set f. c \<notin> set metachars) \<longrightarrow>
      listRecipes (Some f) st =
        (RecipeList (map (populateSummary (users st))
           (filter (\<lambda>r. containsIgnoringCase f (title r)) (recipes st))), st)) \<and>
   listRecipes None st = (RecipeList (map (populateSummary (users st)) (recipes st)), st) \<and>
   fst (populateSummary us r) = r \<and>
   (snd (populateSummary us r) = None \<longleftrightarrow> author r \<notin> set (map u_id us)) \<and>
   (\<forall>s. snd (populateSummary us r) = Some s \<longrightarrow>
      (\<exists>u \<in> set us. u_id u = author r \<and>
         s = \<lparr>as_id = u_id u, as_name = name u, as_email = email u\<rparr>))"
proof (intro conjI impI allI)
  assume lit: "\<forall>c \<in> set f. c \<notin> set metachars"
  show "listRecipes (Some f) st =
        (RecipeList (map (populateSummary (users st))
           (filter (\<lambda>r. containsIgnoringCase f (title r)) (recipes st))), st)"
  proof (cases "f = []")
    case True
    then show ?thesis by (simp add: listRecipes_def falsy_def containsIgnoringCase_def)
  next
    case False
    then show ?thesis
      using lit by (simp add: listRecipes_def falsy_def parsePattern_literal regexTest_literal)
  qed
next
  show "listRecipes None st = (RecipeList (map (populateSummary (users st)) (recipes st)), st)"
    by (simp add: listRecipes_def falsy_def)
next
  show "fst (populateSummary us r) = r" by (rule populateSummary_fst)
next
  show "snd (populateSummary us r) = None \<longleftrightarrow> author r \<notin> set (map u_id us)"
    by (rule populateSummary_None)
next
  fix s
  assume "snd (populateSummary us r) = Some s"
  then show "\<exists>u \<in> set us. u_id u = author r \<and>
         s = \<lparr>as_id = u_id u, as_name = name u, as_email = email u\<rparr>"
    by (rule populateSummary_Some)
qed

theorem listRecipes_literal_filter_witness:
  "set ''cake'' \<inter> set metachars = {} \<and>
   map title (recipes cakeStore) = [''Chocolate Cake'', ''Bread'', ''Carrot Cake''] \<and>
   users cakeStore = [ann] \<and>
   author (titled 0 10 ''Chocolate Cake'') = u_id ann \<and>
   set (map u_id [ann]) = {10} \<and> author (titled 2 7 ''Carrot Cake'') = 7 \<and>
   listRecipes (Some ''cake'') cakeStore =
     (RecipeList
        [(titled 0 10 ''Chocolate Cake'',
          Some \<lparr>as_id = 10, as_name = ''Ann'', as_email = ''ann@example.org''\<rparr>),
         (titled 2 7 ''Carrot Cake'', None)], cakeStore)"
proof -
  note t = listRecipes_literal_filter [of "''cake''" cakeStore "[ann]"]
  have m: "\<forall>c \<in> set ''cake''. c \<notin> set metachars"
    by (simp add: metachars_def)
  have d: "map title (recipes cakeStore) = [''Chocolate Cake'', ''Bread'', ''Carrot Cake'']"
    and u: "users cakeStore = [ann]"
    and a: "author (titled 0 10 ''Chocolate Cake'') = u_id ann" "set (map u_id [ann]) = {10}"
      "author (titled 2 7 ''Carrot Cake'') = 7"
    by (simp_all add: cakeStore_def titled_def ann_def)
  have f: "filter (\<lambda>r. containsIgnoringCase ''cake'' (title r)) (recipes cakeStore) =
           [titled 0 10 ''Chocolate Cake'', titled 2 7 ''Carrot Cake'']"
    by code_simp
  note c = t [of "titled 0 10 ''Chocolate Cake''"]
  note k = t [of "titled 2 7 ''Carrot Cake''"]
  have "snd (populateSummary [ann] (titled 0 10 ''Chocolate Cake'')) \<noteq> None"
    using c [THEN conjunct2, THEN conjunct2, THEN conjunct2, THEN conjunct1] a by simp
  then obtain s where s: "snd (populateSummary [ann] (titled 0 10 ''Chocolate Cake'')) = Some s"
    by blast
  from c [THEN conjunct2, THEN conjunct2, THEN conjunct2, THEN conjunct2, THEN spec, THEN mp,
      OF s]
  have "s = \<lparr>as_id = 10, as_name = ''Ann'', as_email = ''ann@example.org''\<rparr>"
    by (simp add: ann_def)
  with s c [THEN conjunct2, THEN conjunct2, THEN conjunct1]
  have p1: "populateSummary [ann] (titled 0 10 ''Chocolate Cake'') =
      (titled 0 10 ''Chocolate Cake'',
       Some \<lparr>as_id = 10, as_name = ''Ann'', as_email = ''ann@example.org''\<rparr>)"
    by (simp add: prod_eq_iff)
  have "snd (populateSummary [ann] (titled 2 7 ''Carrot Cake'')) = None"
    using k [THEN conjunct2, THEN conjunct2, THEN conjunct2, THEN conjunct1] a by simp
  with k [THEN conjunct2, THEN conjunct2, THEN conjunct1]
  have p2: "populateSummary [ann] (titled 2 7 ''Carrot Cake'') =
      (titled 2 7 ''Carrot Cake'', None)"
    by (simp add: prod_eq_iff)
  from t [THEN conjunct1, THEN mp, OF m]
  have "listRecipes (Some ''cake'') cakeStore =
     (RecipeList
        [(titled 0 10 ''Chocolate Cake'',
          Some \<lparr>as_id = 10, as_name = ''Ann'', as_email = ''ann@example.org''\<rparr>),
         (titled 2 7 ''Carrot Cake'', None)], cakeStore)"
    by (simp only: f u list.map p1 p2)
  moreover have "set ''cake'' \<inter> set metachars = {}"
    by (simp add: metachars_def)
  ultimately show ?thesis using d u a by simp
qed

subsection \<open>Analytics\<close>

text \<open>
  C7. GET /analytics, for document counts below \<open>2^53\<close>: totalUsers and
  totalRecipes are the two counts; with no users avgRecipesPerUser is the number 0 and no
  division takes place; otherwise it is a string, the digits of an integer \<open>n\<close> with
  a point before the last two, where \<open>n / 100\<close> is nearest to the quotient of the
  counts as the double division computes it (within a relative \<open>2^-53\<close> of the exact
  quotient).
\<close>

theorem getAnalytics_average:
  assumes "length (users st) < 2 ^ 53" and "length (recipes st) < 2 ^ 53"
  shows "\<exists>avg. getAnalytics st =
           (AnalyticsReport
              \<lparr>totalUsers = length (users st), totalRecipes = length (recipes st),
               avgRecipesPerUser = avg,
               mostViewedRecipe = orNoRecipes (firstByViewsDesc (recipes st)),
               leastViewedRecipe = orNoRecipes (firstByViewsAsc (recipes st))\<rparr>, st) \<and>
         (users st = [] \<longrightarrow> avg = AvgNumber 0) \<and>
         (users st \<noteq> [] \<longrightarrow>
            (\<exists>x n. jsDivide (length (recipes st)) (length (users st)) = Num x \<and>
               \<bar>x - of_nat (length (recipes st)) / of_nat (length (users st))\<bar>
                 \<le> (of_nat (length (recipes st)) / of_nat (length (users st))) / 2 ^ 53 \<and>
               \<bar>of_nat n - 100 * x\<bar> \<le> 1 / 2 \<and>
               avg = AvgString (digits (n div 100) @ ''.'' @
                       [digitChar (n mod 100 div 10), digitChar (n mod 10)])))"
proof (cases "users st = []")
  case True
  then show ?thesis using assms by (simp add: getAnalytics_def Let_def)
next
  case False
  then have pos: "0 < length (users st)" by simp
  from toFixed2_jsDivide [OF pos assms(2)]
  obtain x n where js: "jsDivide (length (recipes st)) (length (users st)) = Num x"
    and acc: "\<bar>x - of_nat (length (recipes st)) / of_nat (length (users st))\<bar>
                 \<le> (of_nat (length (recipes st)) / of_nat (length (users st))) / 2 ^ 53"
    and near: "\<bar>of_nat n - 100 * x\<bar> \<le> 1 / 2"
    and str: "toFixed2 (jsDivide (length (recipes st)) (length (users st))) =
             Some (digits (n div 100) @ ''.'' @ [digitChar (n mod 100 div 10), digitChar (n mod 10)])"
    by blast
  have "getAnalytics st =
           (AnalyticsReport
              \<lparr>totalUsers = length (users st), totalRecipes = length (recipes st),
               avgRecipesPerUser = AvgString (digits (n div 100) @ ''.'' @
                       [digitChar (n mod 100 div 10), digitChar (n mod 10)]),
               mostViewedRecipe = orNoRecipes (firstByViewsDesc (recipes st)),
               leastViewedRecipe = orNoRecipes (firstByViewsAsc (recipes st))\<rparr>, st)"
    using assms False by (simp add: getAnalytics_def Let_def str)
  then show ?thesis using False js acc near by blast
qed

lemma extremes_breadStore:
  "orNoRecipes (firstByViewsDesc (recipes breadStore)) = Extremal bread"
  "orNoRecipes (firstByViewsAsc (recipes breadStore)) = Extremal bread"
  by (simp_all add: orNoRecipes_def breadStore_def)

lemma extremes_threeUsers:
  "orNoRecipes (firstByViewsDesc (recipes threeUsers)) = Extremal (sample 1 11 (Some (IntN 9)))"
  "orNoRecipes (firstByViewsAsc (recipes threeUsers)) = Extremal (sample 0 10 (Some (IntN 4)))"
  by (simp_all add: orNoRecipes_def threeUsers_def sample_def numValue_def)

lemma getAnalytics_threeUsers:
  "getAnalytics threeUsers =
     (AnalyticsReport
        \<lparr>totalUsers = 3, totalRecipes = 2, avgRecipesPerUser = AvgString ''0.67'',
         mostViewedRecipe = Extremal (sample 1 11 (Some (IntN 9))),
         leastViewedRecipe = Extremal (sample 0 10 (Some (IntN 4)))\<rparr>, threeUsers)"
proof -
  have l: "length (users threeUsers) = 3" "length (recipes threeUsers) = 2"
    by (simp_all add: threeUsers_def)
  show ?thesis
    unfolding getAnalytics_def Let_def l
    by (simp add: toFixed2_2_3 extremes_threeUsers)
qed

theorem getAnalytics_average_witness:
  "length (users breadStore) < 2 ^ 53 \<and> length (recipes breadStore) < 2 ^ 53 \<and>
   users breadStore = [] \<and>
   getAnalytics breadStore =
     (AnalyticsReport
        \<lparr>totalUsers = 0, totalRecipes = 1, avgRecipesPerUser = AvgNumber 0,
         mostViewedRecipe = Extremal bread, leastViewedRecipe = Extremal bread\<rparr>, breadStore) \<and>
   length (users threeUsers) < 2 ^ 53 \<and> length (recipes threeUsers) < 2 ^ 53 \<and>
   users threeUsers \<noteq> [] \<and>
   getAnalytics threeUsers =
     (AnalyticsReport
        \<lparr>totalUsers = 3, totalRecipes = 2, avgRecipesPerUser = AvgString ''0.67'',
         mostViewedRecipe = Extremal (sample 1 11 (Some (IntN 9))),
         leastViewedRecipe = Extremal (sample 0 10 (Some (IntN 4)))\<rparr>, threeUsers)"
proof -
  have b: "length (users breadStore) < 2 ^ 53" "length (recipes breadStore) < 2 ^ 53"
    "users breadStore = []" "length (users breadStore) = 0" "length (recipes breadStore) = 1"
    by (simp_all add: breadStore_def)
  have t: "length (users threeUsers) < 2 ^ 53" "length (recipes threeUsers) < 2 ^ 53"
    "users threeUsers \<noteq> []"
    by (simp_all add: threeUsers_def)
  from getAnalytics_average [OF b(1,2)] b(3)
  have "getAnalytics breadStore =
     (AnalyticsReport
        \<lparr>totalUsers = 0, totalRecipes = 1, avgRecipesPerUser = AvgNumber 0,
         mostViewedRecipe = Extremal bread, leastViewedRecipe = Extremal bread\<rparr>, breadStore)"
    unfolding extremes_breadStore b(4,5) by blast
  moreover from getAnalytics_average [OF t(1,2)] t(3)
  have "\<exists>x. jsDivide (length (recipes threeUsers)) (length (users threeUsers)) = Num x"
    by blast
  ultimately show ?thesis using b t getAnalytics_threeUsers by simp
qed

end
